theory Spec2Isabelle
  imports Complex_Main "HOL-Library.AList" "HOL-Library.Sublist"
begin

section \<open>Institutional accumulation analyzer\<close>

text \<open>
  A shallow embedding of \<open>src/app/api/analyze/route.ts\<close>: the classifier of client names,
  the business-day calendar, the parser of one line of a delimited file, the fetcher of the
  bulk deals of one day, the aggregator that ranks the symbols by institutional buy value, and
  the handler \<open>POST\<close> that runs them and streams progress, result and error events. The
  encoding of an event as a line \<open>data: JSON\<close> and the headers of the HTTP response are not
  modelled: an event is a value. All definitions come first, the properties follow.
\<close>

section \<open>Strings\<close>

text \<open>
  A JavaScript string is the list of its UTF-16 code units, each an integer from 0 to 65535; \<open>str\<close>
  gives the string of an ASCII literal. \<open>trim\<close> removes the white space and line terminators
  of ECMAScript at both ends: tab, line feed, vertical tab, form feed, carriage return, space,
  no-break space, U+1680, U+2000 to U+200A, U+2028, U+2029, U+202F, U+205F, U+3000 and U+FEFF.
  \<open>toUpperCase\<close> maps the letters a to z of a string of ASCII characters to A to Z; on any
  other string its result follows the Unicode case mappings of the host, which are the
  parameter \<open>upperNonAscii\<close>. The second parameter of the host, its time zone, is described
  with the calendar.
\<close>

type_synonym jsstring = "int list"

definition str :: "string \<Rightarrow> jsstring" where
  "str s = map of_char s"

abbreviation comma :: int where
  "comma \<equiv> 44"

abbreviation quote :: int where
  "quote \<equiv> 34"

record platform =
  upperNonAscii :: "jsstring \<Rightarrow> jsstring"
  previousDay :: "int \<Rightarrow> int option"

definition asciiUpper :: "int \<Rightarrow> int" where
  "asciiUpper c = (if 97 \<le> c \<and> c \<le> 122 then c - 32 else c)"

definition toUpperCase :: "platform \<Rightarrow> jsstring \<Rightarrow> jsstring" where
  "toUpperCase p s =
     (if list_all (\<lambda>c. c < 128) s then map asciiUpper s else upperNonAscii p s)"

definition isWhiteSpace :: "int \<Rightarrow> bool" where
  "isWhiteSpace c \<longleftrightarrow>
     c \<in> set [9, 10, 11, 12, 13, 32, 160, 5760, 8232, 8233, 8239, 8287, 12288, 65279]
     \<or> (8192 \<le> c \<and> c \<le> 8202)"

definition trim :: "jsstring \<Rightarrow> jsstring" where
  "trim s = rev (dropWhile isWhiteSpace (rev (dropWhile isWhiteSpace s)))"

text \<open>\<open>s.includes(k)\<close>: \<open>k\<close> occurs in \<open>s\<close> as a contiguous run of code units.\<close>

fun includesStr :: "jsstring \<Rightarrow> jsstring \<Rightarrow> bool" where
  "includesStr [] k = (k = [])"
| "includesStr (c # cs) k = (prefix k (c # cs) \<or> includesStr cs k)"

section \<open>Institutional classifier\<close>

definition INSTITUTIONAL_KEYWORDS :: "jsstring list" where
  "INSTITUTIONAL_KEYWORDS =
     map str
       [''INSURANCE'', ''MUTUAL FUND'', ''LIC'', ''TRUST'', ''BANK'', ''SECURITIES'',
        ''INVESTMENT'', ''CAPITAL'', ''FUND'', ''ASSET MANAGEMENT'', ''PENSION'', ''PMS'',
        ''AIF'', ''FII'', ''DII'', ''INSTITUTIONAL'', ''FINANCIAL SERVICES'', ''WEALTH'',
        ''HOLDINGS'']"

definition isInstitutional :: "platform \<Rightarrow> jsstring \<Rightarrow> bool" where
  "isInstitutional p clientName =
     (let upperClient = toUpperCase p clientName
      in list_ex (\<lambda>keyword. includesStr upperClient keyword) INSTITUTIONAL_KEYWORDS)"

section \<open>Row parser\<close>

text \<open>
  The \<open>for\<close> loop of \<open>parseCSVLine\<close> over the characters of the line, with its three
  variables \<open>result\<close>, \<open>current\<close> and \<open>inQuotes\<close>. 
\<close>

fun parseLoop :: "jsstring \<Rightarrow> jsstring list \<Rightarrow> jsstring \<Rightarrow> bool \<Rightarrow> jsstring list" where
  "parseLoop [] result current inQuotes = result @ [trim current]"
| "parseLoop (char # rest) result current inQuotes =
     (if char = quote then parseLoop rest result current (\<not> inQuotes)
      else if char = comma \<and> \<not> inQuotes then parseLoop rest (result @ [trim current]) [] inQuotes
      else parseLoop rest result (current @ [char]) inQuotes)"

definition parseCSVLine :: "jsstring \<Rightarrow> jsstring list" where
  "parseCSVLine line = parseLoop line [] [] False"

text \<open>
  For stating what the parser computes: \<open>joinComma\<close> joins segments with commas,
  \<open>unquote\<close> removes the quote characters, \<open>quoteCount\<close> counts them, and
  \<open>splitUnquoted q\<close> cuts a line at the commas outside quoted spans, starting inside a
  quoted span when \<open>q\<close> holds.
\<close>

fun joinComma :: "jsstring list \<Rightarrow> jsstring" where
  "joinComma [] = []"
| "joinComma [s] = s"
| "joinComma (s # t # ss) = s @ comma # joinComma (t # ss)"

definition unquote :: "jsstring \<Rightarrow> jsstring" where
  "unquote s = filter (\<lambda>c. c \<noteq> quote) s"

fun splitUnquoted :: "bool \<Rightarrow> jsstring \<Rightarrow> jsstring list" where
  "splitUnquoted q [] = [[]]"
| "splitUnquoted q (c # cs) =
     (if c = comma \<and> \<not> q then [] # splitUnquoted q cs
      else (case splitUnquoted (if c = quote then \<not> q else q) cs of
              [] \<Rightarrow> [[c]]
            | s # ss \<Rightarrow> (c # s) # ss))"

definition quoteCount :: "jsstring \<Rightarrow> nat" where
  "quoteCount s = count_list s (quote)"

section \<open>Business-day calendar\<close>

text \<open>
  A valid \<open>Date\<close> is modelled by its local calendar day, counted in days from 1 January 1970
  (a Thursday); \<open>None\<close> is an invalid \<open>Date\<close>. \<open>getDay\<close> is the day of the week, 0 for
  Sunday to 6 for Saturday, and \<open>NaN\<close> (\<open>None\<close>) for an invalid date, which the test
  \<open>dayOfWeek !== 0 && dayOfWeek !== 6\<close> lets pass. \<open>setDate(getDate() - 1)\<close> is the host's
  \<open>previousDay\<close>: the local day on which the \<open>Date\<close> stands afterwards, or \<open>None\<close> when it
  has left the range of time values. In most time zones this is the day before; where the
  local calendar skips a day (Pacific/Apia has no 30 December 2011) the \<open>Date\<close> stays on the
  day it had. The reference date \<open>new Date()\<close> is the parameter \<open>today\<close>. The \<open>while\<close> loop
  need not end, so it is a partial function, \<open>None\<close> when it runs forever.
\<close>

definition getDay :: "int option \<Rightarrow> int option" where
  "getDay date = map_option (\<lambda>d. (d + 4) mod 7) date"

definition setDateBack :: "platform \<Rightarrow> int option \<Rightarrow> int option" where
  "setDateBack p date = (case date of None \<Rightarrow> None | Some d \<Rightarrow> previousDay p d)"

partial_function (option) businessDaysLoop ::
  "platform \<Rightarrow> nat \<Rightarrow> int option list \<Rightarrow> nat \<Rightarrow> int option \<Rightarrow> int option list option" where
  "businessDaysLoop p n dates count currentDate =
     (if count < n then
        (let dayOfWeek = getDay currentDate in
         if dayOfWeek \<noteq> Some 0 \<and> dayOfWeek \<noteq> Some 6
         then businessDaysLoop p n (dates @ [currentDate]) (count + 1) (setDateBack p currentDate)
         else businessDaysLoop p n dates count (setDateBack p currentDate))
      else Some dates)"

declare businessDaysLoop.simps [code]

definition getLastNBusinessDays :: "platform \<Rightarrow> nat \<Rightarrow> int \<Rightarrow> int option list option" where
  "getLastNBusinessDays p n today = businessDaysLoop p n [] 0 (Some today)"

text \<open>
  For stating what the calendar computes: the weekday of a day number, and the walk backward
  over the day numbers themselves, one day at a step.
\<close>

definition weekday :: "int \<Rightarrow> int" where
  "weekday d = (d + 4) mod 7"

definition isBusinessDay :: "int \<Rightarrow> bool" where
  "isBusinessDay d \<longleftrightarrow> weekday d \<noteq> 0 \<and> weekday d \<noteq> 6"

function walkBack :: "nat \<Rightarrow> int list \<Rightarrow> nat \<Rightarrow> int \<Rightarrow> int list" where
  "walkBack n dates count currentDate =
     (if count < n then
        (if isBusinessDay currentDate
         then walkBack n (dates @ [currentDate]) (count + 1) (currentDate - 1)
         else walkBack n dates count (currentDate - 1))
      else dates)"
  by pat_completeness auto
termination
proof (relation "measure (\<lambda>(n, dates, count, currentDate).
          3 * (n - count) + (if weekday currentDate = 0 then 2 else if weekday currentDate = 6 then 1 else 0))")
  show "wf (measure (\<lambda>(n, dates, count, currentDate).
          3 * (n - count) + (if weekday currentDate = 0 then 2 else if weekday currentDate = 6 then 1 else 0)))"
    by simp
next
  fix n :: nat and dates :: "int list" and count :: nat and currentDate :: int
  assume "count < n" "isBusinessDay currentDate"
  then show "((n, dates @ [currentDate], count + 1, currentDate - 1), (n, dates, count, currentDate))
       \<in> measure (\<lambda>(n, dates, count, currentDate).
          3 * (n - count) + (if weekday currentDate = 0 then 2 else if weekday currentDate = 6 then 1 else 0))"
    by (auto simp: isBusinessDay_def)
next
  fix n :: nat and dates :: "int list" and count :: nat and currentDate :: int
  assume a: "count < n" "\<not> isBusinessDay currentDate"
  then have "weekday currentDate = 0 \<or> weekday currentDate = 6" by (auto simp: isBusinessDay_def)
  then have "(weekday currentDate = 0 \<and> weekday (currentDate - 1) = 6)
           \<or> (weekday currentDate = 6 \<and> weekday (currentDate - 1) = 5)"
    unfolding weekday_def by presburger
  then show "((n, dates, count, currentDate - 1), (n, dates, count, currentDate))
       \<in> measure (\<lambda>(n, dates, count, currentDate).
          3 * (n - count) + (if weekday currentDate = 0 then 2 else if weekday currentDate = 6 then 1 else 0))"
    by auto
qed

declare walkBack.simps [simp del]

text \<open>
  Two hosts: one whose local calendar has every day, and one in the time zone Pacific/Apia,
  where a \<open>Date\<close> on 31 December 2011 (day 15339) set back by one day stays on that day.
\<close>

definition plainHost :: platform where
  "plainHost = \<lparr>upperNonAscii = (\<lambda>s. s), previousDay = (\<lambda>d. Some (d - 1))\<rparr>"

definition apiaHost :: platform where
  "apiaHost = \<lparr>upperNonAscii = (\<lambda>s. s),
                previousDay = (\<lambda>d. if d = 15339 then Some 15339 else Some (d - 1))\<rparr>"

section \<open>Numbers\<close>

text \<open>
  The numbers of JavaScript are IEEE doubles. Their type is a parameter \<open>'n\<close> of the model,
  and the operations that the program uses on them are the parameters \<open>'n arith\<close> of the host:
  \<open>parseFloat\<close>, the literal \<open>0\<close>, \<open>+\<close>, \<open>-\<close>, \<open>*\<close>, \<open>/\<close> and the test \<open>x > 0\<close>, which is
  false for \<open>NaN\<close>. Nothing is assumed of them unless a property says so. Counts of array
  elements and of transactions are natural numbers.
\<close>

record 'n arith =
  parseFloat :: "jsstring \<Rightarrow> 'n"
  numZero :: 'n
  numAdd :: "'n \<Rightarrow> 'n \<Rightarrow> 'n"
  numSub :: "'n \<Rightarrow> 'n \<Rightarrow> 'n"
  numMul :: "'n \<Rightarrow> 'n \<Rightarrow> 'n"
  numDiv :: "'n \<Rightarrow> 'n \<Rightarrow> 'n"
  isPositive :: "'n \<Rightarrow> bool"

text \<open>\<open>String(n)\<close> for an integer: its decimal digits, with a sign when it is negative.\<close>

fun showNat :: "nat \<Rightarrow> jsstring" where
  "showNat n =
     (if n < 10 then [48 + int n]
      else showNat (n div 10) @ [48 + int (n mod 10)])"

declare showNat.simps [simp del]

definition showInt :: "int \<Rightarrow> jsstring" where
  "showInt i = (if i < 0 then 45 # showNat (nat (- i)) else showNat (nat i))"

text \<open>For stating what a decimal numeral is: the digits, and the value of a list of digits.\<close>

definition isDigit :: "int \<Rightarrow> bool" where
  "isDigit c \<longleftrightarrow> 48 \<le> c \<and> c \<le> 57"

definition digitsValue :: "jsstring \<Rightarrow> int" where
  "digitsValue ds = foldl (\<lambda>acc c. 10 * acc + (c - 48)) 0 ds"

section \<open>Data model\<close>

text \<open>
  The interfaces \<open>Deal\<close> and \<open>StockAccumulation\<close>. The field \<open>value\<close> of a deal is named
  \<open>dealValue\<close>. The three totals kept per symbol in the \<open>Map\<close> of the aggregator are the
  record \<open>Totals\<close>, which \<open>StockAccumulation\<close> extends with \<open>stock\<close> (the field \<open>symbol\<close>) and
  \<open>avgPrice\<close>.
\<close>

record 'n Deal =
  date :: jsstring
  symbol :: jsstring
  clientName :: jsstring
  dealType :: jsstring
  quantity :: 'n
  price :: 'n
  dealValue :: 'n

record 'n Totals =
  totalBuyQuantity :: 'n
  totalBuyValue :: 'n
  transactions :: nat

record 'n StockAccumulation = "'n Totals" +
  stock :: jsstring
  avgPrice :: 'n

section \<open>Environment and effects\<close>

text \<open>
  A thrown value is either an \<open>Error\<close> object with its message or some other value. The
  network is a parameter: \<open>fetch\<close> maps a URL to a rejection or to a response, whose \<open>text()\<close>
  in turn rejects or yields the body. The consumer of the stream may cancel it while a request
  is pending; \<open>cancelledDuring\<close> says for which URLs this happens. The renderings of a date
  that depend on the locale data and on the time zone of the host
  (\<open>toLocaleDateString('en-IN')\<close>, and for a valid date the date part of \<open>toISOString()\<close>)
  are parameters as well. \<open>allDeals.push(...deals)\<close> raises a \<open>RangeError\<close> when the array
  is longer than the engine's bound on the number of arguments of a call; the bound and the
  error are the parameters \<open>spreadLimit\<close> and \<open>spreadError\<close>.

  The state of a run holds the calls that the stream controller has accepted (\<open>enqueue\<close> of
  an encoded event, \<open>close\<close>), whether the stream is closed, which it is after \<open>close\<close> and
  after a cancellation, and the lines written to the console. On a closed stream \<open>enqueue\<close>
  and \<open>close\<close> raise a \<open>TypeError\<close> and change nothing.
\<close>

datatype exn = ErrorObject jsstring | OtherValue

record Response =
  ok :: bool
  bodyText :: "exn + jsstring"

record env =
  newDate :: int
  fetch :: "jsstring \<Rightarrow> exn + Response"
  cancelledDuring :: "jsstring \<Rightarrow> bool"
  toLocaleDateString :: "int option \<Rightarrow> jsstring"
  toISODate :: "int \<Rightarrow> jsstring"
  spreadLimit :: nat
  spreadError :: exn

datatype 'n event = Progress jsstring | Result "'n StockAccumulation list" | Error jsstring

datatype 'n controllerCall = Enqueue "'n event" | Close

datatype logEntry = ConsoleLog jsstring | ConsoleError jsstring exn

record 'n world =
  stream :: "'n controllerCall list"
  closed :: bool
  console :: "logEntry list"

definition newStream :: "'n world" where
  "newStream = \<lparr>stream = [], closed = False, console = []\<rparr>"

definition closedStreamError :: exn where
  "closedStreamError = ErrorObject (str ''Invalid state: Controller is already closed'')"

definition enqueue :: "'n event \<Rightarrow> 'n world \<Rightarrow> exn + 'n world" where
  "enqueue ev w =
     (if closed w then Inl closedStreamError else Inr (w\<lparr>stream := stream w @ [Enqueue ev]\<rparr>))"

definition close :: "'n world \<Rightarrow> exn + 'n world" where
  "close w =
     (if closed w then Inl closedStreamError
      else Inr (w\<lparr>stream := stream w @ [Close], closed := True\<rparr>))"

definition cancelIf :: "bool \<Rightarrow> 'n world \<Rightarrow> 'n world" where
  "cancelIf c w = (if c then w\<lparr>closed := True\<rparr> else w)"

definition consoleWrite :: "logEntry \<Rightarrow> 'n world \<Rightarrow> 'n world" where
  "consoleWrite l w = w\<lparr>console := console w @ [l]\<rparr>"

section \<open>Deal fetcher\<close>

text \<open>
  The calendar fields of a valid date (\<open>getFullYear\<close>, \<open>getMonth\<close> counted from 0,
  \<open>getDate\<close>) are computed from the day number in the proleptic Gregorian calendar. For an
  invalid date they are \<open>NaN\<close>, which \<open>String\<close> and a template literal render as \<open>NaN\<close>, and
  \<open>toISOString()\<close> raises a \<open>RangeError\<close>.
\<close>

definition civil :: "int \<Rightarrow> int \<times> int \<times> int" where
  "civil z =
     (let z' = z + 719468;
          era = z' div 146097;
          doe = z' mod 146097;
          yoe = (doe - doe div 1460 + doe div 36524 - doe div 146096) div 365;
          doy = doe - (365 * yoe + yoe div 4 - yoe div 100);
          mp = (5 * doy + 2) div 153;
          d = doy - (153 * mp + 2) div 5 + 1;
          m = (if mp < 10 then mp + 3 else mp - 9);
          y = yoe + era * 400 + (if m \<le> 2 then 1 else 0)
      in (y, m, d))"

definition getFullYear :: "int \<Rightarrow> int" where
  "getFullYear d = fst (civil d)"

definition getMonth :: "int \<Rightarrow> int" where
  "getMonth d = fst (snd (civil d)) - 1"

definition getDate :: "int \<Rightarrow> int" where
  "getDate d = snd (snd (civil d))"

definition padStart :: "nat \<Rightarrow> int \<Rightarrow> jsstring \<Rightarrow> jsstring" where
  "padStart n c s = replicate (n - length s) c @ s"

definition formatDateForNSE :: "int option \<Rightarrow> jsstring" where
  "formatDateForNSE d =
     (case d of
        None \<Rightarrow> str ''NaN'' @ str ''NaN'' @ str ''NaN''
      | Some z \<Rightarrow>
          (let day = padStart 2 48 (showInt (getDate z));
               month = padStart 2 48 (showInt (getMonth z + 1));
               year = showInt (getFullYear z)
           in day @ month @ year))"

definition toISOString :: "env \<Rightarrow> int option \<Rightarrow> exn + jsstring" where
  "toISOString e d =
     (case d of
        None \<Rightarrow> Inl (ErrorObject (str ''Invalid time value''))
      | Some z \<Rightarrow> Inr (toISODate e z))"

text \<open>\<open>s.split('\n')\<close>, \<open>s.replace(/,/g, '')\<close> and \<open>a || b\<close> on strings.\<close>

fun splitOn :: "int \<Rightarrow> jsstring \<Rightarrow> jsstring list" where
  "splitOn sep [] = [[]]"
| "splitOn sep (c # cs) =
     (if c = sep then [] # splitOn sep cs
      else (case splitOn sep cs of
              [] \<Rightarrow> [[c]]
            | s # ss \<Rightarrow> (c # s) # ss))"

definition removeCommas :: "jsstring \<Rightarrow> jsstring" where
  "removeCommas s = filter (\<lambda>c. c \<noteq> comma) s"

definition orElse :: "jsstring \<Rightarrow> jsstring \<Rightarrow> jsstring" where
  "orElse s d = (if s = [] then d else s)"

text \<open>
  The body of the \<open>for\<close> loop on the cells of a row (the array \<open>fields\<close>): \<open>rowToDeal\<close>
  yields no deal where the loop continues without pushing one, and the exception of
  \<open>toISOString()\<close> where the row is accepted and the date is invalid. The cells are read
  only when there are at least eight of them, so every index is in range.
\<close>

definition rowToDeal ::
  "platform \<Rightarrow> 'n arith \<Rightarrow> exn + jsstring \<Rightarrow> jsstring list \<Rightarrow> exn + 'n Deal option" where
  "rowToDeal p a isoDate cells =
     (if length cells < 8 then Inr None
      else
        (let stockSymbol = orElse (trim (cells ! 1)) [];
             client = orElse (trim (cells ! 2)) [];
             kind = orElse (toUpperCase p (trim (cells ! 3))) [];
             amount = parseFloat a (orElse (removeCommas (cells ! 4)) (str ''0''));
             rate = parseFloat a (orElse (removeCommas (cells ! 5)) (str ''0''))
         in if stockSymbol \<noteq> [] \<and> client \<noteq> [] \<and> isPositive a amount \<and> isPositive a rate
               \<and> kind = str ''BUY''
            then (case isoDate of
                    Inl err \<Rightarrow> Inl err
                  | Inr isoText \<Rightarrow>
                      Inr (Some \<lparr>date = isoText, symbol = stockSymbol, clientName = client,
                                  dealType = kind, quantity = amount, price = rate,
                                  dealValue = numMul a amount rate\<rparr>))
            else Inr None))"

fun dealsLoop ::
  "platform \<Rightarrow> 'n arith \<Rightarrow> exn + jsstring \<Rightarrow> jsstring list \<Rightarrow> 'n Deal list \<Rightarrow> exn + 'n Deal list" where
  "dealsLoop p a isoDate [] deals = Inr deals"
| "dealsLoop p a isoDate (line # rest) deals =
     (case rowToDeal p a isoDate (parseCSVLine line) of
        Inl err \<Rightarrow> Inl err
      | Inr None \<Rightarrow> dealsLoop p a isoDate rest deals
      | Inr (Some deal) \<Rightarrow> dealsLoop p a isoDate rest (deals @ [deal]))"

definition nonBlankLines :: "jsstring \<Rightarrow> jsstring list" where
  "nonBlankLines csvText = filter (\<lambda>line. trim line \<noteq> []) (splitOn 10 csvText)"

definition parseDeals ::
  "platform \<Rightarrow> 'n arith \<Rightarrow> exn + jsstring \<Rightarrow> jsstring \<Rightarrow> exn + 'n Deal list" where
  "parseDeals p a isoDate csvText =
     (let lines = nonBlankLines csvText
      in if length lines < 2 then Inr [] else dealsLoop p a isoDate (tl lines) [])"

text \<open>
  The \<open>try\<close> block of \<open>downloadBhavCopy\<close>: it yields the deals, or the exception that the
  \<open>catch\<close> clause receives, together with the state after it. A cancellation while the
  request is pending closes the stream.
\<close>

definition bulkUrl :: "int option \<Rightarrow> jsstring" where
  "bulkUrl d =
     str ''https://nsearchives.nseindia.com/content/equities/bulk_'' @ formatDateForNSE d @ str ''.csv''"

definition fetchDeals ::
  "platform \<Rightarrow> 'n arith \<Rightarrow> env \<Rightarrow> int option \<Rightarrow> 'n world \<Rightarrow> (exn + 'n Deal list) \<times> 'n world" where
  "fetchDeals p a e d w =
     (let w' = cancelIf (cancelledDuring e (bulkUrl d)) w
      in case fetch e (bulkUrl d) of
           Inl err \<Rightarrow> (Inl err, w')
         | Inr response \<Rightarrow>
             if \<not> ok response
             then (Inr [], consoleWrite (ConsoleLog (str ''No data available for '' @ toLocaleDateString e d)) w')
             else (case bodyText response of
                     Inl err \<Rightarrow> (Inl err, w')
                   | Inr csvText \<Rightarrow> (parseDeals p a (toISOString e d) csvText, w')))"

definition fetchingMessage :: "env \<Rightarrow> int option \<Rightarrow> jsstring" where
  "fetchingMessage e d = str ''Fetching data for '' @ toLocaleDateString e d @ str ''...''"

definition downloadBhavCopy ::
  "platform \<Rightarrow> 'n arith \<Rightarrow> env \<Rightarrow> int option \<Rightarrow> 'n world \<Rightarrow> (exn + 'n Deal list) \<times> 'n world" where
  "downloadBhavCopy p a e d w =
     (let dateStr = formatDateForNSE d
      in case enqueue (Progress (fetchingMessage e d)) w of
           Inl err \<Rightarrow> (Inl err, w)
         | Inr w1 \<Rightarrow>
             (case fetchDeals p a e d w1 of
                (Inr deals, w2) \<Rightarrow> (Inr deals, w2)
              | (Inl err, w2) \<Rightarrow>
                  (Inr [], consoleWrite (ConsoleError (str ''Error fetching data for '' @ dateStr @ str '':'') err) w2)))"
text \<open>
  For stating what the fetcher accepts: the test on the cells of a parsed row, and the deal of
  an accepted row. The quantity and the price are read by \<open>parseFloat\<close> from the cell with its
  commas removed, an empty cell being read as \<open>0\<close>.
\<close>

definition numberOfCell :: "'n arith \<Rightarrow> jsstring \<Rightarrow> 'n" where
  "numberOfCell a cell = parseFloat a (if removeCommas cell = [] then str ''0'' else removeCommas cell)"

definition acceptedRow :: "platform \<Rightarrow> 'n arith \<Rightarrow> jsstring list \<Rightarrow> bool" where
  "acceptedRow p a cells \<longleftrightarrow>
     8 \<le> length cells \<and> trim (cells ! 1) \<noteq> [] \<and> trim (cells ! 2) \<noteq> []
     \<and> toUpperCase p (trim (cells ! 3)) = str ''BUY''
     \<and> isPositive a (numberOfCell a (cells ! 4)) \<and> isPositive a (numberOfCell a (cells ! 5))"


section \<open>Aggregator\<close>

text \<open>
  The \<open>Map\<close> of \<open>analyzeAccumulation\<close> is an association list in insertion order, the order in
  which \<open>Array.from(stockMap.entries())\<close> lists it: \<open>get\<close> is \<open>map_of\<close>, and \<open>set\<close> replaces
  the value of a key that is present, keeping its place, and appends a new key at the end.

  \<open>Array.prototype.sort\<close> is a stable sort by the comparator, whose result counts as positive,
  negative or zero; \<open>NaN\<close> counts as zero. When the comparator is consistent the sorted order
  is determined, and it is the one of the stable insertion sort \<open>sortBy\<close>, which moves an
  element behind the following ones for which the comparator is positive. When the comparator
  is not consistent the standard leaves the order to the engine; \<open>sortBy\<close> is then one
  possible engine.
\<close>

fun accumulate :: "'n arith \<Rightarrow> 'n Deal list \<Rightarrow> (jsstring \<times> 'n Totals) list \<Rightarrow> (jsstring \<times> 'n Totals) list" where
  "accumulate a [] stockMap = stockMap"
| "accumulate a (deal # rest) stockMap =
     (let existing = (case map_of stockMap (symbol deal) of
                        Some t \<Rightarrow> t
                      | None \<Rightarrow> \<lparr>totalBuyQuantity = numZero a, totalBuyValue = numZero a, transactions = 0\<rparr>)
      in accumulate a rest
           (AList.update (symbol deal)
              \<lparr>totalBuyQuantity = numAdd a (totalBuyQuantity existing) (quantity deal),
               totalBuyValue = numAdd a (totalBuyValue existing) (dealValue deal),
               transactions = transactions existing + 1\<rparr>
              stockMap))"

definition toAccumulation :: "'n arith \<Rightarrow> jsstring \<times> 'n Totals \<Rightarrow> 'n StockAccumulation" where
  "toAccumulation a entry =
     (case entry of (stockSymbol, data) \<Rightarrow>
        \<lparr>totalBuyQuantity = totalBuyQuantity data,
         totalBuyValue = totalBuyValue data,
         transactions = transactions data,
         stock = stockSymbol,
         avgPrice = numDiv a (totalBuyValue data) (totalBuyQuantity data)\<rparr>)"

definition compareByValue :: "'n arith \<Rightarrow> 'n StockAccumulation \<Rightarrow> 'n StockAccumulation \<Rightarrow> 'n" where
  "compareByValue a x y = numSub a (totalBuyValue y) (totalBuyValue x)"

fun insertSorted :: "'n arith \<Rightarrow> ('r \<Rightarrow> 'r \<Rightarrow> 'n) \<Rightarrow> 'r \<Rightarrow> 'r list \<Rightarrow> 'r list" where
  "insertSorted a cmp x [] = [x]"
| "insertSorted a cmp x (y # ys) =
     (if isPositive a (cmp x y) then y # insertSorted a cmp x ys else x # y # ys)"

definition sortBy :: "'n arith \<Rightarrow> ('r \<Rightarrow> 'r \<Rightarrow> 'n) \<Rightarrow> 'r list \<Rightarrow> 'r list" where
  "sortBy a cmp xs = foldr (insertSorted a cmp) xs []"

definition institutionalDeals :: "platform \<Rightarrow> 'n Deal list \<Rightarrow> 'n Deal list" where
  "institutionalDeals p allDeals =
     filter (\<lambda>deal. dealType deal = str ''BUY'' \<and> isInstitutional p (clientName deal)) allDeals"

definition analyzeAccumulation :: "platform \<Rightarrow> 'n arith \<Rightarrow> 'n Deal list \<Rightarrow> 'n StockAccumulation list" where
  "analyzeAccumulation p a allDeals =
     (let stockMap = accumulate a (institutionalDeals p allDeals) [];
          results = map (toAccumulation a) stockMap
      in take 10 (sortBy a (compareByValue a) results))"

text \<open>
  For stating what the aggregator computes: the distinct elements of a list in the order in
  which they are first met; the sum of a list of numbers, added to \<open>0\<close> one after the other
  from the left; the totals and the accumulation of one symbol over a list of deals, which sum
  and count the deals of that symbol; and the list of these per symbol, in the order in which
  the symbols are first met (\<open>table\<close> with the totals, \<open>groupsOf\<close> with the accumulations).
\<close>

fun firstOccurrences :: "'k list \<Rightarrow> 'k list" where
  "firstOccurrences [] = []"
| "firstOccurrences (x # xs) = x # filter (\<lambda>y. y \<noteq> x) (firstOccurrences xs)"

definition sumOf :: "'n arith \<Rightarrow> 'n list \<Rightarrow> 'n" where
  "sumOf a xs = foldl (numAdd a) (numZero a) xs"

definition totalsOf :: "'n arith \<Rightarrow> 'n Deal list \<Rightarrow> jsstring \<Rightarrow> 'n Totals" where
  "totalsOf a deals s =
     (let own = filter (\<lambda>deal. symbol deal = s) deals
      in \<lparr>totalBuyQuantity = sumOf a (map quantity own),
          totalBuyValue = sumOf a (map dealValue own),
          transactions = length own\<rparr>)"

definition table :: "'n arith \<Rightarrow> 'n Deal list \<Rightarrow> (jsstring \<times> 'n Totals) list" where
  "table a deals = map (\<lambda>s. (s, totalsOf a deals s)) (firstOccurrences (map symbol deals))"

definition accumulationOf :: "'n arith \<Rightarrow> 'n Deal list \<Rightarrow> jsstring \<Rightarrow> 'n StockAccumulation" where
  "accumulationOf a deals s =
     (let own = filter (\<lambda>deal. symbol deal = s) deals
      in \<lparr>totalBuyQuantity = sumOf a (map quantity own),
          totalBuyValue = sumOf a (map dealValue own),
          transactions = length own,
          stock = s,
          avgPrice = numDiv a (sumOf a (map dealValue own)) (sumOf a (map quantity own))\<rparr>)"

definition groupsOf :: "'n arith \<Rightarrow> 'n Deal list \<Rightarrow> 'n StockAccumulation list" where
  "groupsOf a deals = map (accumulationOf a deals) (firstOccurrences (map symbol deals))"



text \<open>
  The two facts of arithmetic on which the positivity of a total rests. They hold for the
  doubles of JavaScript: \<open>0 > 0\<close> is false, and the sum of \<open>0\<close> or of a number greater than
  zero with a number greater than zero is greater than zero, also when it is rounded or
  overflows to \<open>Infinity\<close>.
\<close>

definition positiveSums :: "'n arith \<Rightarrow> bool" where
  "positiveSums a \<longleftrightarrow>
     \<not> isPositive a (numZero a)
     \<and> (\<forall>v. isPositive a v \<longrightarrow> isPositive a (numAdd a (numZero a) v))
     \<and> (\<forall>u v. isPositive a u \<and> isPositive a v \<longrightarrow> isPositive a (numAdd a u v))"

section \<open>Orchestrator\<close>

text \<open>
  \<open>pushSpread\<close> is \<open>allDeals.push(...deals)\<close>. \<open>fetchLoop\<close> is the \<open>for\<close> loop of \<open>POST\<close> over the
  dates; an exception leaves it at once. \<open>analysis\<close> is the \<open>try\<close> block for a given list of
  dates, after the call of the calendar, and \<open>start\<close> adds the \<open>catch\<close> clause: it yields the
  exception with which the promise of \<open>start\<close> is rejected, if any, and the final state.
  \<open>POST\<close> runs it on the five last business days with a new stream and gives the calls that
  the controller has accepted; it gives nothing when the calendar does not return.
\<close>

definition pushSpread :: "env \<Rightarrow> 'n Deal list \<Rightarrow> 'n Deal list \<Rightarrow> exn + 'n Deal list" where
  "pushSpread e allDeals deals =
     (if length deals > spreadLimit e then Inl (spreadError e) else Inr (allDeals @ deals))"

fun fetchLoop ::
  "platform \<Rightarrow> 'n arith \<Rightarrow> env \<Rightarrow> int option list \<Rightarrow> 'n Deal list \<Rightarrow> 'n world
     \<Rightarrow> (exn + 'n Deal list) \<times> 'n world" where
  "fetchLoop p a e [] allDeals w = (Inr allDeals, w)"
| "fetchLoop p a e (d # rest) allDeals w =
     (case downloadBhavCopy p a e d w of
        (Inl err, w1) \<Rightarrow> (Inl err, w1)
      | (Inr deals, w1) \<Rightarrow>
          (case pushSpread e allDeals deals of
             Inl err \<Rightarrow> (Inl err, w1)
           | Inr allDeals' \<Rightarrow> fetchLoop p a e rest allDeals' w1))"

definition analyzingMessage :: "nat \<Rightarrow> jsstring" where
  "analyzingMessage n =
     str ''Analyzing '' @ showNat n @ str '' transactions from institutional investors...''"

definition analysis ::
  "platform \<Rightarrow> 'n arith \<Rightarrow> env \<Rightarrow> int option list \<Rightarrow> 'n world \<Rightarrow> (exn + unit) \<times> 'n world" where
  "analysis p a e dates w =
     (case fetchLoop p a e dates [] w of
        (Inl err, w1) \<Rightarrow> (Inl err, w1)
      | (Inr allDeals, w1) \<Rightarrow>
          (case enqueue (Progress (analyzingMessage (length allDeals))) w1 of
             Inl err \<Rightarrow> (Inl err, w1)
           | Inr w2 \<Rightarrow>
               (let results = analyzeAccumulation p a allDeals
                in case enqueue (Result results) w2 of
                     Inl err \<Rightarrow> (Inl err, w2)
                   | Inr w3 \<Rightarrow>
                       (case close w3 of
                          Inl err \<Rightarrow> (Inl err, w3)
                        | Inr w4 \<Rightarrow> (Inr (), w4)))))"

definition errorMessage :: "exn \<Rightarrow> jsstring" where
  "errorMessage err = (case err of ErrorObject m \<Rightarrow> m | OtherValue \<Rightarrow> str ''Unknown error occurred'')"

definition start ::
  "platform \<Rightarrow> 'n arith \<Rightarrow> env \<Rightarrow> int option list \<Rightarrow> 'n world \<Rightarrow> exn option \<times> 'n world" where
  "start p a e dates w =
     (case analysis p a e dates w of
        (Inr u, w1) \<Rightarrow> (None, w1)
      | (Inl err, w1) \<Rightarrow>
          (case enqueue (Error (errorMessage err)) w1 of
             Inl err2 \<Rightarrow> (Some err2, w1)
           | Inr w2 \<Rightarrow>
               (case close w2 of
                  Inl err2 \<Rightarrow> (Some err2, w2)
                | Inr w3 \<Rightarrow> (None, w3))))"

definition POST :: "platform \<Rightarrow> 'n arith \<Rightarrow> env \<Rightarrow> 'n controllerCall list option" where
  "POST p a e =
     (case getLastNBusinessDays p 5 (newDate e) of
        None \<Rightarrow> None
      | Some dates \<Rightarrow> Some (stream (snd (start p a e dates newStream))))"

text \<open>
  For stating what a run emits: the deals that the fetcher returns for a date on a writable
  stream, the events of a stream in order, and the tests for the kind of an event.
\<close>

definition dayDeals :: "platform \<Rightarrow> 'n arith \<Rightarrow> env \<Rightarrow> int option \<Rightarrow> 'n Deal list" where
  "dayDeals p a e d =
     (case fst (downloadBhavCopy p a e d newStream) of
        Inr deals \<Rightarrow> deals
      | Inl err \<Rightarrow> [])"

definition events :: "'n controllerCall list \<Rightarrow> 'n event list" where
  "events calls = concat (map (\<lambda>c. case c of Enqueue ev \<Rightarrow> [ev] | Close \<Rightarrow> []) calls)"

definition isResult :: "'n event \<Rightarrow> bool" where
  "isResult ev = (case ev of Result r \<Rightarrow> True | _ \<Rightarrow> False)"

definition isError :: "'n event \<Rightarrow> bool" where
  "isError ev = (case ev of Error m \<Rightarrow> True | _ \<Rightarrow> False)"

definition isProgress :: "'n event \<Rightarrow> bool" where
  "isProgress ev = (case ev of Progress m \<Rightarrow> True | _ \<Rightarrow> False)"

section \<open>Example data\<close>

text \<open>
  A host for the examples. Its numbers are exact rationals together with \<open>None\<close> for \<open>NaN\<close>;
  the operations are the exact ones, a division by zero and every operation on \<open>NaN\<close> give
  \<open>NaN\<close>, and no comparison with \<open>NaN\<close> holds. \<open>decimalValue\<close> reads a decimal literal as
  \<open>parseFloat\<close> does: it skips leading white space and reads the longest prefix that is an
  optional sign, digits with an optional fraction, and an optional exponent that counts only
  when it has a digit; without a digit the result is \<open>NaN\<close>.
\<close>

definition exponentPart :: "jsstring \<Rightarrow> int" where
  "exponentPart s =
     (case s of
        [] \<Rightarrow> 0
      | c # r \<Rightarrow>
          if c = 101 \<or> c = 69 then
            (let negative = (r \<noteq> [] \<and> hd r = 45);
                 r' = (if r \<noteq> [] \<and> (hd r = 45 \<or> hd r = 43) then tl r else r);
                 ds = takeWhile isDigit r'
             in if ds = [] then 0
                else if negative then - digitsValue ds else digitsValue ds)
          else 0)"

definition decimalValue :: "jsstring \<Rightarrow> rat option" where
  "decimalValue s =
     (let s1 = dropWhile isWhiteSpace s;
          negative = (s1 \<noteq> [] \<and> hd s1 = 45);
          s2 = (if s1 \<noteq> [] \<and> (hd s1 = 45 \<or> hd s1 = 43) then tl s1 else s1);
          intDigits = takeWhile isDigit s2;
          s3 = dropWhile isDigit s2;
          hasPoint = (s3 \<noteq> [] \<and> hd s3 = 46);
          fracDigits = (if hasPoint then takeWhile isDigit (tl s3) else []);
          s4 = (if hasPoint then dropWhile isDigit (tl s3) else s3)
      in if intDigits = [] \<and> fracDigits = [] then None
         else
           (let mantissa = of_int (digitsValue (intDigits @ fracDigits)) / 10 ^ length fracDigits;
                ex = exponentPart s4;
                magnitude = (if ex < 0 then mantissa / 10 ^ nat (- ex) else mantissa * 10 ^ nat ex)
            in Some (if negative then - magnitude else magnitude)))"

definition lift2 :: "(rat \<Rightarrow> rat \<Rightarrow> rat) \<Rightarrow> rat option \<Rightarrow> rat option \<Rightarrow> rat option" where
  "lift2 f x y = (case x of None \<Rightarrow> None | Some u \<Rightarrow> (case y of None \<Rightarrow> None | Some v \<Rightarrow> Some (f u v)))"

definition exactArith :: "rat option arith" where
  "exactArith =
     \<lparr>parseFloat = decimalValue,
      numZero = Some 0,
      numAdd = lift2 (+),
      numSub = lift2 (-),
      numMul = lift2 (*),
      numDiv = (\<lambda>x y. if y = Some 0 then None else lift2 (/) x y),
      isPositive = (\<lambda>x. case x of None \<Rightarrow> False | Some u \<Rightarrow> 0 < u)\<rparr>"

text \<open>
  A file of five data rows, three of them accepted (two symbols), and an environment in which
  the day 20756 (30 October 2026) has that file, the fetch of the day before rejects, the body
  of the day before that cannot be read, the next file has only its header, the file of an
  invalid date has one row, and every other day has no file. Dates are rendered as a host in
  UTC with the \<open>en-IN\<close> locale does. Nobody cancels the stream.
\<close>

definition exampleCsv :: jsstring where
  "exampleCsv =
     str ''Date,Symbol,Client,Type,Qty,Price,Remarks,Extra'' @ [10] @
     str '',TCS,XYZ MUTUAL FUND,buy,'' @ [quote] @ str ''1,000'' @ [quote] @ str '',10.5,x,-'' @ [13, 10] @
     str '',INFY,ABC BANK,SELL,50,20,x,-'' @ [10] @
     str '',INFY,ABC BANK,BUY,50,20,x,-'' @ [10] @
     str '',INFY,ABC BANK,BUY,0,20,x,-'' @ [10] @
     str '',TCS,LIC,BUY,5,2,x,-'' @ [10]"

definition oneRowCsv :: jsstring where
  "oneRowCsv =
     str ''Date,Symbol,Client,Type,Qty,Price,Remarks,Extra'' @ [10] @
     str '',TCS,LIC,BUY,5,2,x,-''"

definition exampleEnv :: env where
  "exampleEnv =
     \<lparr>newDate = 20759,
      fetch = (\<lambda>url. if url = bulkUrl (Some 20756) then Inr \<lparr>ok = True, bodyText = Inr exampleCsv\<rparr>
                    else if url = bulkUrl (Some 20755) then Inl (ErrorObject (str ''fetch failed''))
                    else if url = bulkUrl (Some 20754) then Inr \<lparr>ok = True, bodyText = Inl OtherValue\<rparr>
                    else if url = bulkUrl (Some 20753) then Inr \<lparr>ok = True, bodyText = Inr (str ''Date,Symbol'')\<rparr>
                    else if url = bulkUrl None then Inr \<lparr>ok = True, bodyText = Inr oneRowCsv\<rparr>
                    else Inr \<lparr>ok = False, bodyText = Inr []\<rparr>),
      cancelledDuring = (\<lambda>url. False),
      toLocaleDateString =
        (\<lambda>d. case d of
                None \<Rightarrow> str ''Invalid Date''
              | Some z \<Rightarrow> showInt (getDate z) @ str ''/'' @ showInt (getMonth z + 1) @ str ''/''
                           @ showInt (getFullYear z)),
      toISODate =
        (\<lambda>z. showInt (getFullYear z) @ str ''-'' @ padStart 2 48 (showInt (getMonth z + 1)) @ str ''-''
               @ padStart 2 48 (showInt (getDate z))),
      spreadLimit = 100000,
      spreadError = ErrorObject (str ''Maximum call stack size exceeded'')\<rparr>"

definition closedWorld :: "rat option world" where
  "closedWorld = \<lparr>stream = [], closed = True, console = []\<rparr>"

definition exampleDeals :: "rat option Deal list" where
  "exampleDeals =
     [\<lparr>date = str ''2026-10-30'', symbol = str ''TCS'', clientName = str ''XYZ MUTUAL FUND'',
        dealType = str ''BUY'', quantity = Some 1000, price = Some (21 / 2), dealValue = Some 10500\<rparr>,
      \<lparr>date = str ''2026-10-30'', symbol = str ''INFY'', clientName = str ''ABC BANK'',
        dealType = str ''BUY'', quantity = Some 50, price = Some 20, dealValue = Some 1000\<rparr>,
      \<lparr>date = str ''2026-10-30'', symbol = str ''TCS'', clientName = str ''LIC'',
        dealType = str ''BUY'', quantity = Some 5, price = Some 2, dealValue = Some 10\<rparr>]"

section \<open>Properties of the classifier\<close>

lemma includesStr_iff: "includesStr s k \<longleftrightarrow> (\<exists>u v. s = u @ k @ v)"
proof (induction s)
  case Nil
  then show ?case by auto
next
  case (Cons c cs)
  show ?case
  proof
    assume "includesStr (c # cs) k"
    then consider "prefix k (c # cs)" | "includesStr cs k" by auto
    then show "\<exists>u v. c # cs = u @ k @ v"
    proof cases
      case 1
      then obtain q where "c # cs = k @ q" by (auto simp: prefix_def)
      then have "c # cs = [] @ k @ q" by simp
      then show ?thesis by blast
    next
      case 2
      with Cons obtain u v where "cs = u @ k @ v" by blast
      then have "c # cs = (c # u) @ k @ v" by simp
      then show ?thesis by blast
    qed
  next
    assume "\<exists>u v. c # cs = u @ k @ v"
    then obtain u v where pq: "c # cs = u @ k @ v" by blast
    show "includesStr (c # cs) k"
    proof (cases u)
      case Nil
      with pq have "prefix k (c # cs)" by (simp add: prefix_def)
      then show ?thesis by simp
    next
      case (Cons a p')
      with pq have "cs = p' @ k @ v" by simp
      with Cons.IH have "includesStr cs k" by blast
      then show ?thesis by simp
    qed
  qed
qed

lemma toUpperCase_examples:
  "toUpperCase p (str ''XYZ MUTUAL FUND'') = str ''XYZ MUTUAL FUND''"
  "toUpperCase p (str ''RAJESH KUMAR SHARMA'') = str ''RAJESH KUMAR SHARMA''"
  "toUpperCase p (str ''abc bank ltd'') = str ''ABC BANK LTD''"
  by (simp_all add: toUpperCase_def str_def asciiUpper_def)

lemma keyword_examples:
  "list_ex (\<lambda>keyword. includesStr (str ''XYZ MUTUAL FUND'') keyword) INSTITUTIONAL_KEYWORDS"
  "\<not> list_ex (\<lambda>keyword. includesStr (str ''RAJESH KUMAR SHARMA'') keyword) INSTITUTIONAL_KEYWORDS"
  "list_ex (\<lambda>keyword. includesStr (str ''ABC BANK LTD'') keyword) INSTITUTIONAL_KEYWORDS"
  by code_simp+

lemma isInstitutional_examples:
  "isInstitutional p (str ''XYZ MUTUAL FUND'')"
  "\<not> isInstitutional p (str ''RAJESH KUMAR SHARMA'')"
  "isInstitutional p (str ''abc bank ltd'')"
  unfolding isInstitutional_def Let_def toUpperCase_examples by (rule keyword_examples)+

text \<open>
  C8. On every host, \<open>isInstitutional name\<close> holds exactly when the upper-cased name contains
  one of the nineteen keywords as a substring (a contiguous run of code units, not a whole
  word); the keyword list is the fixed one; and the three examples of the specification
  evaluate as stated.
\<close>

theorem isInstitutional_substring_keyword:
  "(isInstitutional p name \<longleftrightarrow>
      (\<exists>keyword u v. keyword \<in> set INSTITUTIONAL_KEYWORDS \<and> toUpperCase p name = u @ keyword @ v))
   \<and> INSTITUTIONAL_KEYWORDS =
       map str
         [''INSURANCE'', ''MUTUAL FUND'', ''LIC'', ''TRUST'', ''BANK'', ''SECURITIES'',
          ''INVESTMENT'', ''CAPITAL'', ''FUND'', ''ASSET MANAGEMENT'', ''PENSION'', ''PMS'',
          ''AIF'', ''FII'', ''DII'', ''INSTITUTIONAL'', ''FINANCIAL SERVICES'', ''WEALTH'',
          ''HOLDINGS'']
   \<and> isInstitutional p (str ''XYZ MUTUAL FUND'')
   \<and> \<not> isInstitutional p (str ''RAJESH KUMAR SHARMA'')
   \<and> isInstitutional p (str ''abc bank ltd'')"
proof -
  have general: "isInstitutional p name \<longleftrightarrow>
      (\<exists>keyword u v. keyword \<in> set INSTITUTIONAL_KEYWORDS \<and> toUpperCase p name = u @ keyword @ v)"
    unfolding isInstitutional_def Let_def list_ex_iff includesStr_iff by blast
  have kws: "INSTITUTIONAL_KEYWORDS =
       map str
         [''INSURANCE'', ''MUTUAL FUND'', ''LIC'', ''TRUST'', ''BANK'', ''SECURITIES'',
          ''INVESTMENT'', ''CAPITAL'', ''FUND'', ''ASSET MANAGEMENT'', ''PENSION'', ''PMS'',
          ''AIF'', ''FII'', ''DII'', ''INSTITUTIONAL'', ''FINANCIAL SERVICES'', ''WEALTH'',
          ''HOLDINGS'']"
    by (simp only: INSTITUTIONAL_KEYWORDS_def)
  from general kws isInstitutional_examples[of p] show ?thesis by blast
qed

section \<open>Properties of the row parser\<close>

lemma splitUnquoted_nonempty: "splitUnquoted q cs \<noteq> []"
  by (induction cs arbitrary: q) (auto split: list.splits)

lemma joinComma_Cons: "r \<noteq> [] \<Longrightarrow> joinComma ((c # hd r) # tl r) = c # joinComma r"
  by (cases r rule: joinComma.cases) auto

lemma joinComma_splitUnquoted: "joinComma (splitUnquoted q cs) = cs"
proof (induction cs arbitrary: q)
  case Nil show ?case by simp
next
  case (Cons c cs)
  show ?case
  proof (cases "c = comma \<and> \<not> q")
    case True
    obtain s ss where r: "splitUnquoted q cs = s # ss"
      using splitUnquoted_nonempty by (cases "splitUnquoted q cs") auto
    have "joinComma ([] # s # ss) = comma # joinComma (s # ss)" by simp
    with True r Cons.IH[of q] show ?thesis by simp
  next
    case False
    let ?q = "if c = quote then \<not> q else q"
    obtain s ss where r: "splitUnquoted ?q cs = s # ss"
      using splitUnquoted_nonempty by (cases "splitUnquoted ?q cs") auto
    have "joinComma ((c # s) # ss) = c # joinComma (s # ss)"
      by (cases ss) auto
    with False r Cons.IH[of ?q] show ?thesis by auto
  qed
qed

lemma parseLoop_split:
  "parseLoop cs result current q =
     result @ (case splitUnquoted q cs of
                 [] \<Rightarrow> []
               | s # ss \<Rightarrow> trim (current @ unquote s) # map (\<lambda>t. trim (unquote t)) ss)"
proof (induction cs arbitrary: result current q)
  case Nil show ?case by (simp add: unquote_def)
next
  case (Cons c cs)
  show ?case
  proof (cases "c = quote")
    case True
    obtain s ss where r: "splitUnquoted (\<not> q) cs = s # ss"
      using splitUnquoted_nonempty by (cases "splitUnquoted (\<not> q) cs") auto
    with True Cons.IH[of result current "\<not> q"] show ?thesis by (simp add: unquote_def)
  next
    case nq: False
    show ?thesis
    proof (cases "c = comma \<and> \<not> q")
      case True
      obtain s ss where r: "splitUnquoted q cs = s # ss"
        using splitUnquoted_nonempty by (cases "splitUnquoted q cs") auto
      with True nq Cons.IH[of "result @ [trim current]" "[]" q] show ?thesis by (simp add: unquote_def)
    next
      case False
      obtain s ss where r: "splitUnquoted q cs = s # ss"
        using splitUnquoted_nonempty by (cases "splitUnquoted q cs") auto
      with False nq Cons.IH[of result "current @ [c]" q] show ?thesis by (auto simp: unquote_def)
    qed
  qed
qed


lemma splitUnquoted_shape:
  "(\<forall>i<length (hd (splitUnquoted q cs)). hd (splitUnquoted q cs) ! i = comma \<longrightarrow>
        (q \<noteq> odd (quoteCount (take i (hd (splitUnquoted q cs))))))
   \<and> (tl (splitUnquoted q cs) \<noteq> [] \<longrightarrow> (q = odd (quoteCount (hd (splitUnquoted q cs)))))
   \<and> (\<forall>s\<in>set (butlast (tl (splitUnquoted q cs))). even (quoteCount s))
   \<and> (\<forall>s\<in>set (tl (splitUnquoted q cs)). \<forall>i<length s. s ! i = comma \<longrightarrow> odd (quoteCount (take i s)))"
proof (induction cs arbitrary: q)
  case Nil show ?case by simp
next
  case (Cons c cs)
  show ?case
  proof (cases "c = comma \<and> \<not> q")
    case True
    obtain s ss where r: "splitUnquoted False cs = s # ss"
      using splitUnquoted_nonempty by (cases "splitUnquoted False cs") auto
    from True r have e: "splitUnquoted q (c # cs) = [] # s # ss" by simp
    from True Cons.IH[of False] r show ?thesis unfolding e
      by (auto simp: quoteCount_def)
  next
    case False
    let ?q = "if c = quote then \<not> q else q"
    obtain s ss where r: "splitUnquoted ?q cs = s # ss"
      using splitUnquoted_nonempty by (cases "splitUnquoted ?q cs") auto
    from False r have e: "splitUnquoted q (c # cs) = (c # s) # ss" by auto
    have 1: "\<forall>i<length (c # s). (c # s) ! i = comma \<longrightarrow> (q \<noteq> odd (quoteCount (take i (c # s))))"
    proof (intro allI impI)
      fix i assume i: "i < length (c # s)" and ci: "(c # s) ! i = comma"
      show "q \<noteq> odd (quoteCount (take i (c # s)))"
      proof (cases i)
        case 0 with ci False show ?thesis by (simp add: quoteCount_def)
      next
        case (Suc j)
        with i ci have "j < length s" "s ! j = comma" by auto
        with Cons.IH[of ?q] r have "?q \<noteq> odd (quoteCount (take j s))" by simp
        with Suc show ?thesis by (auto simp: quoteCount_def)
      qed
    qed
    have 2: "ss \<noteq> [] \<longrightarrow> (q = odd (quoteCount (c # s)))"
      using Cons.IH[of ?q] r by (auto simp: quoteCount_def)
    from Cons.IH[of ?q] r 1 2 show ?thesis unfolding e by simp
  qed
qed


lemma trim_trimmed:
  "trim s = [] \<or> (\<not> isWhiteSpace (hd (trim s)) \<and> \<not> isWhiteSpace (last (trim s)))"
proof (cases "dropWhile isWhiteSpace s = []")
  case True
  show ?thesis unfolding trim_def True by simp
next
  case False
  define u where "u = dropWhile isWhiteSpace s"
  define v where "v = dropWhile isWhiteSpace (rev u)"
  from False have u: "u \<noteq> []" by (simp add: u_def)
  then have hu: "\<not> isWhiteSpace (hd u)" unfolding u_def by (rule hd_dropWhile)
  from u have "hd u \<in> set (rev u)" by simp
  with hu have v: "v \<noteq> []" unfolding v_def by (auto simp: dropWhile_eq_Nil_conv)
  then have hv: "\<not> isWhiteSpace (hd v)" unfolding v_def by (rule hd_dropWhile)
  have "rev u = takeWhile isWhiteSpace (rev u) @ v" by (simp add: v_def)
  then have "last (rev u) = last (takeWhile isWhiteSpace (rev u) @ v)" by simp
  also have "\<dots> = last v" using v by simp
  finally have lv: "last v = hd u" using u by (simp add: last_rev)
  have t: "trim s = rev v" by (simp add: trim_def u_def v_def)
  from v hv hu lv show ?thesis unfolding t by (simp add: hd_rev last_rev)
qed

lemma trim_idem: "trim (trim s) = trim s"
proof -
  from trim_trimmed[of s] show ?thesis
  proof
    assume e: "trim s = []"
    have "trim [] = []" by (simp add: trim_def)
    with e show ?thesis by simp
  next
    assume a: "\<not> isWhiteSpace (hd (trim s)) \<and> \<not> isWhiteSpace (last (trim s))"
    show ?thesis
    proof (cases "trim s")
      case Nil
      have "trim [] = []" by (simp add: trim_def)
      with Nil show ?thesis by simp
    next
      case (Cons a as)
      with a have 1: "dropWhile isWhiteSpace (trim s) = trim s" by simp
      have "hd (rev (trim s)) = last (trim s)" using Cons by (simp only: hd_rev)
      with a have "\<not> isWhiteSpace (hd (rev (trim s)))" by simp
      moreover from Cons have "rev (trim s) \<noteq> []" by simp
      ultimately have 2: "dropWhile isWhiteSpace (rev (trim s)) = rev (trim s)"
        by (cases "rev (trim s)") auto
      show ?thesis unfolding trim_def[of "trim s"] 1 2 by simp
    qed
  qed
qed

lemma unquote_no_quote: "quote \<notin> set (unquote s)"
  by (simp add: unquote_def)

lemma trim_subset: "set (trim s) \<subseteq> set s"
proof -
  have "set (trim s) = set (dropWhile isWhiteSpace (rev (dropWhile isWhiteSpace s)))"
    by (simp add: trim_def)
  also have "\<dots> \<subseteq> set (rev (dropWhile isWhiteSpace s))" by (rule set_dropWhileD[THEN subsetI])
  also have "\<dots> \<subseteq> set s" using set_dropWhileD by fastforce
  finally show ?thesis .
qed

lemma parseCSVLine_no_break_space:
  "parseCSVLine (str ''a,'' @ [160] @ str ''b'' @ [160, 65279] @ str '',c'') = [str ''a'', str ''b'', str ''c'']"
  by code_simp

text \<open>
  C6. Every line is cut into segments exactly at its commas outside quoted spans: the segments
  joined by commas give the line back, every segment before a cut holds an even number of quote
  characters (so the cut is outside quotes), and every comma left inside a segment is preceded
  there by an odd number of quote characters (so it is inside quotes). The fields returned are
  these segments with all quote characters removed and then trimmed by \<open>trim\<close>; so no field contains a
  quote character and no field has leading or trailing white space. The example of the
  specification evaluates as stated.
\<close>

theorem parseCSVLine_fields:
  "(\<exists>segs. segs \<noteq> [] \<and> joinComma segs = line
        \<and> (\<forall>s\<in>set (butlast segs). even (quoteCount s))
        \<and> (\<forall>s\<in>set segs. \<forall>i<length s. s ! i = comma \<longrightarrow> odd (quoteCount (take i s)))
        \<and> parseCSVLine line = map (\<lambda>s. trim (unquote s)) segs)
   \<and> (\<forall>f\<in>set (parseCSVLine line). quote \<notin> set f \<and> trim f = f
          \<and> (f = [] \<or> (\<not> isWhiteSpace (hd f) \<and> \<not> isWhiteSpace (last f))))
   \<and> parseCSVLine (str ''a,'' @ [quote] @ str ''b,c'' @ [quote] @ str '',d'') = [str ''a'', str ''b,c'', str ''d'']"
proof -
  define segs where "segs = splitUnquoted False line"
  obtain s ss where r: "segs = s # ss"
    using splitUnquoted_nonempty[of False line] by (cases segs) (auto simp: segs_def)
  have ne: "segs \<noteq> []" using r by simp
  have jn: "joinComma segs = line" by (simp add: segs_def joinComma_splitUnquoted)
  have shape: "(\<forall>i<length s. s ! i = comma \<longrightarrow> odd (quoteCount (take i s)))
     \<and> (ss \<noteq> [] \<longrightarrow> even (quoteCount s))
     \<and> (\<forall>s\<in>set (butlast ss). even (quoteCount s))
     \<and> (\<forall>s\<in>set ss. \<forall>i<length s. s ! i = comma \<longrightarrow> odd (quoteCount (take i s)))"
    using splitUnquoted_shape[of False line] r unfolding segs_def by simp
  have ev: "\<forall>s\<in>set (butlast segs). even (quoteCount s)"
    using shape unfolding r by auto
  have inner: "\<forall>s\<in>set segs. \<forall>i<length s. s ! i = comma \<longrightarrow> odd (quoteCount (take i s))"
    using shape unfolding r by auto
  have eq: "parseCSVLine line = map (\<lambda>s. trim (unquote s)) segs"
    using r unfolding parseCSVLine_def parseLoop_split segs_def by simp
  have fields: "\<forall>f\<in>set (parseCSVLine line). quote \<notin> set f \<and> trim f = f
          \<and> (f = [] \<or> (\<not> isWhiteSpace (hd f) \<and> \<not> isWhiteSpace (last f)))"
  proof
    fix f assume "f \<in> set (parseCSVLine line)"
    then obtain s where f: "f = trim (unquote s)" unfolding eq by auto
    have "quote \<notin> set f" unfolding f using trim_subset unquote_no_quote by fastforce
    moreover have "trim f = f" unfolding f by (rule trim_idem)
    moreover have "f = [] \<or> (\<not> isWhiteSpace (hd f) \<and> \<not> isWhiteSpace (last f))"
      unfolding f by (rule trim_trimmed)
    ultimately show "quote \<notin> set f \<and> trim f = f
          \<and> (f = [] \<or> (\<not> isWhiteSpace (hd f) \<and> \<not> isWhiteSpace (last f)))" by blast
  qed
  have ex: "parseCSVLine (str ''a,'' @ [quote] @ str ''b,c'' @ [quote] @ str '',d'') = [str ''a'', str ''b,c'', str ''d'']"
    by code_simp
  from ne jn ev inner eq fields ex show ?thesis by blast
qed

theorem parseCSVLine_fields_witness:
  "parseCSVLine (str ''x , '' @ [quote] @ str ''1,000'' @ [quote] @ str '' ,y'') = [str ''x'', str ''1,000'', str ''y'']
   \<and> quote \<notin> set (parseCSVLine (str ''x , '' @ [quote] @ str ''1,000'' @ [quote] @ str '' ,y'') ! 1)
   \<and> trim (parseCSVLine (str ''x , '' @ [quote] @ str ''1,000'' @ [quote] @ str '' ,y'') ! 1) = str ''1,000''"
proof -
  have v: "parseCSVLine (str ''x , '' @ [quote] @ str ''1,000'' @ [quote] @ str '' ,y'') = [str ''x'', str ''1,000'', str ''y'']"
    by code_simp
  from parseCSVLine_fields[of "str ''x , '' @ [quote] @ str ''1,000'' @ [quote] @ str '' ,y''"]
  have "\<forall>f\<in>set (parseCSVLine (str ''x , '' @ [quote] @ str ''1,000'' @ [quote] @ str '' ,y'')).
          quote \<notin> set f \<and> trim f = f
          \<and> (f = [] \<or> (\<not> isWhiteSpace (hd f) \<and> \<not> isWhiteSpace (last f)))" by blast
  with v show ?thesis by simp
qed

section \<open>Properties of the business-day calendar\<close>

lemma weekday_step:
  "weekday d = 0 \<Longrightarrow> weekday (d - 1) = 6"
  "weekday d = 6 \<Longrightarrow> weekday (d - 1) = 5"
  unfolding weekday_def by presburger+

lemma walkBack_invariant:
  "count \<le> n \<Longrightarrow>
   \<exists>new. walkBack n dates count currentDate = dates @ new
       \<and> length new = n - count
       \<and> sorted_wrt (>) new
       \<and> (\<forall>d\<in>set new. d \<le> currentDate \<and> isBusinessDay d)
       \<and> (\<forall>d. d \<le> currentDate \<and> isBusinessDay d \<and> new \<noteq> [] \<and> last new \<le> d \<longrightarrow> d \<in> set new)"
proof (induction n dates count currentDate rule: walkBack.induct)
  case (1 n dates count currentDate)
  show ?case
  proof (cases "count < n")
    case False
    then have "walkBack n dates count currentDate = dates @ []"
      by (subst walkBack.simps) simp
    with False show ?thesis by (intro exI[of _ "[]"]) simp
  next
    case lt: True
    show ?thesis
    proof (cases "isBusinessDay currentDate")
      case True
      with lt have step: "walkBack n dates count currentDate =
          walkBack n (dates @ [currentDate]) (count + 1) (currentDate - 1)"
        by (subst walkBack.simps) simp
      from lt have le: "count + 1 \<le> n" by simp
      from "1.IH"(1)[OF lt True le] obtain new where
        new: "walkBack n (dates @ [currentDate]) (count + 1) (currentDate - 1) = (dates @ [currentDate]) @ new"
          "length new = n - (count + 1)" "sorted_wrt (>) new"
          "\<forall>d\<in>set new. d \<le> currentDate - 1 \<and> isBusinessDay d"
          "\<forall>d. d \<le> currentDate - 1 \<and> isBusinessDay d \<and> new \<noteq> [] \<and> last new \<le> d \<longrightarrow> d \<in> set new"
        by blast
      let ?new = "currentDate # new"
      have a: "walkBack n dates count currentDate = dates @ ?new" using step new(1) by simp
      have b: "length ?new = n - count" using new(2) lt by simp
      have c: "sorted_wrt (>) ?new" using new(3,4) by auto
      have d: "\<forall>d\<in>set ?new. d \<le> currentDate \<and> isBusinessDay d" using new(4) True by auto
      have e: "\<forall>d. d \<le> currentDate \<and> isBusinessDay d \<and> ?new \<noteq> [] \<and> last ?new \<le> d \<longrightarrow> d \<in> set ?new"
      proof (intro allI impI)
        fix d assume h: "d \<le> currentDate \<and> isBusinessDay d \<and> ?new \<noteq> [] \<and> last ?new \<le> d"
        show "d \<in> set ?new"
        proof (cases "d = currentDate")
          case True then show ?thesis by simp
        next
          case False
          with h have le: "d \<le> currentDate - 1" by simp
          show ?thesis
          proof (cases "new = []")
            case True with h False show ?thesis by simp
          next
            case False
            with h have "last new \<le> d" by simp
            with le h False new(5) show ?thesis by simp
          qed
        qed
      qed
      from a b c d e show ?thesis by blast
    next
      case False
      with lt have step: "walkBack n dates count currentDate = walkBack n dates count (currentDate - 1)"
        by (subst walkBack.simps) simp
      from "1.IH"(2)[OF lt False "1.prems"] obtain new where
        new: "walkBack n dates count (currentDate - 1) = dates @ new"
          "length new = n - count" "sorted_wrt (>) new"
          "\<forall>d\<in>set new. d \<le> currentDate - 1 \<and> isBusinessDay d"
          "\<forall>d. d \<le> currentDate - 1 \<and> isBusinessDay d \<and> new \<noteq> [] \<and> last new \<le> d \<longrightarrow> d \<in> set new"
        by blast
      have a: "walkBack n dates count currentDate = dates @ new" using step new(1) by simp
      have d: "\<forall>d\<in>set new. d \<le> currentDate \<and> isBusinessDay d" using new(4) by auto
      have e: "\<forall>d. d \<le> currentDate \<and> isBusinessDay d \<and> new \<noteq> [] \<and> last new \<le> d \<longrightarrow> d \<in> set new"
      proof (intro allI impI)
        fix d assume h: "d \<le> currentDate \<and> isBusinessDay d \<and> new \<noteq> [] \<and> last new \<le> d"
        with False have "d \<noteq> currentDate" by auto
        with h have "d \<le> currentDate - 1" by simp
        with h new(5) show "d \<in> set new" by simp
      qed
      from a new(2,3) d e show ?thesis by blast
    qed
  qed
qed

lemma loop_follows_walk:
  "(\<forall>d. currentDate - 3 * int (n - count)
          + (if weekday currentDate = 0 then 1 else if weekday currentDate = 6 then 2 else 3) \<le> d
        \<and> d \<le> currentDate \<longrightarrow> previousDay p d = Some (d - 1)) \<Longrightarrow>
   businessDaysLoop p n (map Some dates) count (Some currentDate) =
     Some (map Some (walkBack n dates count currentDate))"
proof (induction n dates count currentDate rule: walkBack.induct)
  case (1 n dates count currentDate)
  let ?slack = "\<lambda>c. (if weekday c = 0 then 1 else if weekday c = 6 then 2 else 3 :: int)"
  show ?case
  proof (cases "count < n")
    case False
    then show ?thesis
      by (subst businessDaysLoop.simps, subst walkBack.simps) simp
  next
    case lt: True
    then have r: "1 \<le> int (n - count)" by simp
    have "currentDate - 3 * int (n - count) + ?slack currentDate \<le> currentDate" using r by auto
    with "1.prems" have stepc: "previousDay p currentDate = Some (currentDate - 1)" by blast
    show ?thesis
    proof (cases "isBusinessDay currentDate")
      case True
      then have g: "getDay (Some currentDate) \<noteq> Some 0 \<and> getDay (Some currentDate) \<noteq> Some 6"
        by (simp add: getDay_def isBusinessDay_def weekday_def)
      have sl: "?slack currentDate = 3" using True by (simp add: isBusinessDay_def)
      have win: "\<forall>d. (currentDate - 1) - 3 * int (n - (count + 1)) + ?slack (currentDate - 1) \<le> d
            \<and> d \<le> currentDate - 1 \<longrightarrow> previousDay p d = Some (d - 1)"
      proof (intro allI impI)
        fix d assume h: "(currentDate - 1) - 3 * int (n - (count + 1)) + ?slack (currentDate - 1) \<le> d
            \<and> d \<le> currentDate - 1"
        have "int (n - (count + 1)) = int (n - count) - 1" using lt by simp
        moreover have "1 \<le> ?slack (currentDate - 1)" by simp
        ultimately have "currentDate - 3 * int (n - count) + ?slack currentDate \<le> d"
          using h sl by simp
        with h "1.prems" show "previousDay p d = Some (d - 1)" by simp
      qed
      have "businessDaysLoop p n (map Some dates) count (Some currentDate) =
              businessDaysLoop p n (map Some (dates @ [currentDate])) (count + 1) (Some (currentDate - 1))"
        using lt g stepc by (subst businessDaysLoop.simps) (simp add: Let_def setDateBack_def)
      also have "\<dots> = Some (map Some (walkBack n (dates @ [currentDate]) (count + 1) (currentDate - 1)))"
        by (rule "1.IH"(1)[OF lt True win])
      also have "walkBack n (dates @ [currentDate]) (count + 1) (currentDate - 1) =
                   walkBack n dates count currentDate"
        using lt True by (subst (2) walkBack.simps) simp
      finally show ?thesis .
    next
      case False
      then have w: "weekday currentDate = 0 \<or> weekday currentDate = 6" by (auto simp: isBusinessDay_def)
      then have g: "\<not> (getDay (Some currentDate) \<noteq> Some 0 \<and> getDay (Some currentDate) \<noteq> Some 6)"
        by (auto simp: getDay_def weekday_def)
      from w have sl: "?slack currentDate + 1 \<le> ?slack (currentDate - 1)"
        using weekday_step[of currentDate] by auto
      have win: "\<forall>d. (currentDate - 1) - 3 * int (n - count) + ?slack (currentDate - 1) \<le> d
            \<and> d \<le> currentDate - 1 \<longrightarrow> previousDay p d = Some (d - 1)"
      proof (intro allI impI)
        fix d assume h: "(currentDate - 1) - 3 * int (n - count) + ?slack (currentDate - 1) \<le> d
            \<and> d \<le> currentDate - 1"
        with sl have "currentDate - 3 * int (n - count) + ?slack currentDate \<le> d" by linarith
        with h "1.prems" show "previousDay p d = Some (d - 1)" by simp
      qed
      have "businessDaysLoop p n (map Some dates) count (Some currentDate) =
              businessDaysLoop p n (map Some dates) count (Some (currentDate - 1))"
        using lt g stepc by (subst businessDaysLoop.simps) (auto simp: Let_def setDateBack_def)
      also have "\<dots> = Some (map Some (walkBack n dates count (currentDate - 1)))"
        by (rule "1.IH"(2)[OF lt False win])
      also have "walkBack n dates count (currentDate - 1) = walkBack n dates count currentDate"
        using lt False by (subst (2) walkBack.simps) simp
      finally show ?thesis .
    qed
  qed
qed

lemma apia_stuck:
  "businessDaysLoop p n dates count currentDate = Some y \<Longrightarrow>
     \<not> (p = apiaHost \<and> currentDate = Some 15339 \<and> count < n)"
proof (erule businessDaysLoop.raw_induct
    [rotated, where P = "\<lambda>p n dates count currentDate y.
                           \<not> (p = apiaHost \<and> currentDate = Some 15339 \<and> count < n)"],
    goal_cases)
  case (1 f p n dates count currentDate y)
  show ?case
  proof
    assume s: "p = apiaHost \<and> currentDate = Some 15339 \<and> count < n"
    have g: "getDay (Some 15339) = Some 6" by (simp add: getDay_def)
    have b: "setDateBack apiaHost (Some 15339) = Some 15339"
      by (simp add: setDateBack_def apiaHost_def)
    from 1(2) s g b have "f apiaHost n dates count (Some 15339) = Some y"
      by (simp add: Let_def)
    from 1(1)[OF this] s show False by simp
  qed
qed

lemma getLastNBusinessDays_example:
  "getLastNBusinessDays plainHost 5 20759 =
     Some [Some 20759, Some 20756, Some 20755, Some 20754, Some 20753]"
  by code_simp

text \<open>
  C5, as stated, fails: on a host in the time zone Pacific/Apia whose reference date is
  31 December 2011, a Saturday, the walk backward never leaves that day, since the local
  calendar has no 30 December 2011, and the loop does not end.
\<close>

theorem getLastNBusinessDays_apia_never_returns:
  "getLastNBusinessDays apiaHost 1 15339 = None"
proof (cases "getLastNBusinessDays apiaHost 1 15339")
  case None
  then show ?thesis .
next
  case (Some y)
  then have "businessDaysLoop apiaHost 1 [] 0 (Some 15339) = Some y"
    by (simp add: getLastNBusinessDays_def)
  from apia_stuck[OF this] show ?thesis by simp
qed

text \<open>
  C5, amended. For every \<open>n \<ge> 1\<close>, on a host where, on each of the \<open>3 n\<close> days up to the
  reference date, setting a \<open>Date\<close> back by one day reaches the previous calendar day (no
  local day is skipped and the \<open>Date\<close> stays valid), the loop ends and returns exactly \<open>n\<close>
  valid dates, strictly decreasing, none of them a Saturday or a Sunday; they are exactly the
  business days between the last date returned and the reference date, so no business day is
  skipped on the walk backward; and the reference date itself comes first when it is a
  business day.
\<close>

theorem getLastNBusinessDays_correct:
  assumes "1 \<le> n"
    and "\<forall>d. today - 3 * int n < d \<and> d \<le> today \<longrightarrow> previousDay p d = Some (d - 1)"
  shows "\<exists>ds. getLastNBusinessDays p n today = Some (map Some ds)
     \<and> length ds = n
     \<and> sorted_wrt (>) ds
     \<and> (\<forall>d\<in>set ds. weekday d \<noteq> 0 \<and> weekday d \<noteq> 6)
     \<and> set ds = {d. last ds \<le> d \<and> d \<le> today \<and> weekday d \<noteq> 0 \<and> weekday d \<noteq> 6}
     \<and> (weekday today \<noteq> 0 \<and> weekday today \<noteq> 6 \<longrightarrow> hd ds = today)"
proof -
  let ?r = "walkBack n [] 0 today"
  have win: "\<forall>d. today - 3 * int (n - 0)
          + (if weekday today = 0 then 1 else if weekday today = 6 then 2 else 3) \<le> d
        \<and> d \<le> today \<longrightarrow> previousDay p d = Some (d - 1)"
    using assms(2) by auto
  from loop_follows_walk[OF win, of "[]"]
  have run: "getLastNBusinessDays p n today = Some (map Some ?r)"
    by (simp add: getLastNBusinessDays_def)
  have "0 \<le> n" by simp
  from walkBack_invariant[OF this, of "[]" today] obtain new where
    new: "walkBack n [] 0 today = [] @ new" "length new = n - 0" "sorted_wrt (>) new"
      "\<forall>d\<in>set new. d \<le> today \<and> isBusinessDay d"
      "\<forall>d. d \<le> today \<and> isBusinessDay d \<and> new \<noteq> [] \<and> last new \<le> d \<longrightarrow> d \<in> set new"
    by blast
  have rn: "?r = new" using new(1) by simp
  have len: "length ?r = n" using new(2) by (simp add: rn)
  have srt: "sorted_wrt (>) ?r" using new(3) by (simp only: rn)
  have bus: "\<forall>d\<in>set ?r. d \<le> today \<and> isBusinessDay d" using new(4) by (simp only: rn)
  have cmp: "\<forall>d. d \<le> today \<and> isBusinessDay d \<and> ?r \<noteq> [] \<and> last ?r \<le> d \<longrightarrow> d \<in> set ?r"
    using new(5) by (simp only: rn)
  from len assms(1) have ne: "?r \<noteq> []" by auto
  have lower: "\<forall>d\<in>set ?r. last ?r \<le> d"
  proof
    fix d assume d: "d \<in> set ?r"
    from ne have "?r = butlast ?r @ [last ?r]" by simp
    then have "sorted_wrt (>) (butlast ?r @ [last ?r])" using srt by simp
    then have "\<forall>x\<in>set (butlast ?r). last ?r < x" by (simp add: sorted_wrt_append)
    moreover have "set ?r = set (butlast ?r) \<union> {last ?r}"
      using ne by (metis append_butlast_last_id list.set(1) list.simps(15) set_append)
    with d have "d \<in> set (butlast ?r) \<or> d = last ?r" by blast
    ultimately show "last ?r \<le> d" by auto
  qed
  have seteq: "set ?r = {d. last ?r \<le> d \<and> d \<le> today \<and> weekday d \<noteq> 0 \<and> weekday d \<noteq> 6}"
  proof (intro set_eqI iffI)
    fix d assume "d \<in> set ?r"
    with bus lower have "last ?r \<le> d \<and> d \<le> today \<and> isBusinessDay d" by blast
    then show "d \<in> {d. last ?r \<le> d \<and> d \<le> today \<and> weekday d \<noteq> 0 \<and> weekday d \<noteq> 6}"
      by (simp add: isBusinessDay_def)
  next
    fix d assume "d \<in> {d. last ?r \<le> d \<and> d \<le> today \<and> weekday d \<noteq> 0 \<and> weekday d \<noteq> 6}"
    then have "d \<le> today \<and> isBusinessDay d \<and> ?r \<noteq> [] \<and> last ?r \<le> d"
      using ne by (simp add: isBusinessDay_def)
    with cmp show "d \<in> set ?r" by blast
  qed
  have first: "weekday today \<noteq> 0 \<and> weekday today \<noteq> 6 \<longrightarrow> hd ?r = today"
  proof
    assume b: "weekday today \<noteq> 0 \<and> weekday today \<noteq> 6"
    from ne have lr: "last ?r \<in> set ?r" by simp
    with bus have "last ?r \<le> today" by blast
    with b have "today \<in> {d. last ?r \<le> d \<and> d \<le> today \<and> weekday d \<noteq> 0 \<and> weekday d \<noteq> 6}" by simp
    with seteq have mem: "today \<in> set ?r" by blast
    obtain x xs where r: "?r = x # xs" using ne by (cases ?r) auto
    with srt have "\<forall>y\<in>set xs. y < x" by auto
    moreover from bus r have "x \<le> today" by simp
    ultimately have "today \<notin> set xs" by auto
    with mem r show "hd ?r = today" by auto
  qed
  have wk: "\<forall>d\<in>set ?r. weekday d \<noteq> 0 \<and> weekday d \<noteq> 6"
    using bus by (simp add: isBusinessDay_def)
  from run len srt wk seteq first show ?thesis by blast
qed

theorem getLastNBusinessDays_correct_witness:
  "(1::nat) \<le> 5
   \<and> getLastNBusinessDays plainHost 5 20759 =
       Some [Some 20759, Some 20756, Some 20755, Some 20754, Some 20753]
   \<and> (\<exists>ds. getLastNBusinessDays plainHost 5 20759 = Some (map Some ds) \<and> length ds = 5
         \<and> sorted_wrt (>) ds \<and> hd ds = 20759)"
proof -
  have h: "(1::nat) \<le> 5" by simp
  have z: "\<forall>d. 20759 - 3 * int 5 < d \<and> d \<le> 20759 \<longrightarrow> previousDay plainHost d = Some (d - 1)"
    by (simp add: plainHost_def)
  have g: "weekday 20759 \<noteq> 0 \<and> weekday 20759 \<noteq> 6" by (simp add: weekday_def)
  from getLastNBusinessDays_correct[OF h z] g
  have "\<exists>ds. getLastNBusinessDays plainHost 5 20759 = Some (map Some ds) \<and> length ds = 5
         \<and> sorted_wrt (>) ds \<and> hd ds = 20759" by blast
  with h getLastNBusinessDays_example show ?thesis by blast
qed

section \<open>Properties of the deal fetcher\<close>

lemma orElse_empty: "orElse s [] = s"
  by (simp add: orElse_def)


lemma rowToDeal_invalid:
  "rowToDeal p a (Inl err) cells = (if acceptedRow p a cells then Inl err else Inr None)"
  by (auto simp: rowToDeal_def acceptedRow_def numberOfCell_def orElse_def Let_def)


lemma dealsLoop_invalid:
  "dealsLoop p a (Inl err) lines deals =
     (if \<exists>line \<in> set lines. acceptedRow p a (parseCSVLine line) then Inl err else Inr deals)"
  by (induction lines arbitrary: deals) (simp_all add: rowToDeal_invalid)


lemma enqueue_open:
  "\<not> closed w \<Longrightarrow>
     enqueue ev w = Inr \<lparr>stream = stream w @ [Enqueue ev], closed = False, console = console w\<rparr>"
  by (cases w) (simp add: enqueue_def)

lemma newStream_open: "\<not> closed newStream"
  by (simp add: newStream_def)

lemma enqueue_closed: "closed w \<Longrightarrow> enqueue ev w = Inl closedStreamError"
  by (simp add: enqueue_def)

lemma close_open:
  "\<not> closed w \<Longrightarrow> close w = Inr \<lparr>stream = stream w @ [Close], closed = True, console = console w\<rparr>"
  by (cases w) (simp add: close_def)

lemma close_closed: "closed w \<Longrightarrow> close w = Inl closedStreamError"
  by (simp add: close_def)

lemma consoleWrite_world:
  "consoleWrite l w = \<lparr>stream = stream w, closed = closed w, console = console w @ [l]\<rparr>"
  by (cases w) (simp add: consoleWrite_def)

lemma cancelIf_world:
  "cancelIf c w = \<lparr>stream = stream w, closed = (closed w \<or> c), console = console w\<rparr>"
  by (cases w) (simp add: cancelIf_def)

lemma downloadBhavCopy_closed:
  "closed w \<Longrightarrow> downloadBhavCopy p a e d w = (Inl closedStreamError, w)"
  by (simp add: downloadBhavCopy_def enqueue_closed)

lemma downloadBhavCopy_open:
  assumes "\<not> closed w"
  shows "downloadBhavCopy p a e d w =
     (case fetchDeals p a e d \<lparr>stream = stream w @ [Enqueue (Progress (fetchingMessage e d))],
                               closed = False, console = console w\<rparr> of
        (Inr deals, w2) \<Rightarrow> (Inr deals, w2)
      | (Inl err, w2) \<Rightarrow>
          (Inr [], consoleWrite (ConsoleError (str ''Error fetching data for '' @ formatDateForNSE d @ str '':'') err) w2))"
  using assms by (simp add: downloadBhavCopy_def enqueue_open Let_def)

lemma downloadBhavCopy_ok:
  assumes "\<not> closed w" "fetch e (bulkUrl d) = Inr response" "ok response"
    "bodyText response = Inr csvText" "parseDeals p a (toISOString e d) csvText = Inr deals"
  shows "downloadBhavCopy p a e d w =
           (Inr deals, \<lparr>stream = stream w @ [Enqueue (Progress (fetchingMessage e d))],
                        closed = cancelledDuring e (bulkUrl d), console = console w\<rparr>)"
  using assms by (simp add: downloadBhavCopy_open fetchDeals_def Let_def cancelIf_world)

lemma downloadBhavCopy_parse_error:
  assumes "\<not> closed w" "fetch e (bulkUrl d) = Inr response" "ok response"
    "bodyText response = Inr csvText" "parseDeals p a (toISOString e d) csvText = Inl err"
  shows "downloadBhavCopy p a e d w =
           (Inr [], \<lparr>stream = stream w @ [Enqueue (Progress (fetchingMessage e d))],
                     closed = cancelledDuring e (bulkUrl d),
                     console = console w @ [ConsoleError (str ''Error fetching data for '' @ formatDateForNSE d @ str '':'') err]\<rparr>)"
  using assms by (simp add: downloadBhavCopy_open fetchDeals_def Let_def cancelIf_world consoleWrite_world)

lemma downloadBhavCopy_rejected:
  assumes "\<not> closed w" "fetch e (bulkUrl d) = Inl err"
  shows "downloadBhavCopy p a e d w =
           (Inr [], \<lparr>stream = stream w @ [Enqueue (Progress (fetchingMessage e d))],
                     closed = cancelledDuring e (bulkUrl d),
                     console = console w @ [ConsoleError (str ''Error fetching data for '' @ formatDateForNSE d @ str '':'') err]\<rparr>)"
  using assms by (simp add: downloadBhavCopy_open fetchDeals_def Let_def cancelIf_world consoleWrite_world)

lemma downloadBhavCopy_not_ok:
  assumes "\<not> closed w" "fetch e (bulkUrl d) = Inr response" "\<not> ok response"
  shows "downloadBhavCopy p a e d w =
           (Inr [], \<lparr>stream = stream w @ [Enqueue (Progress (fetchingMessage e d))],
                     closed = cancelledDuring e (bulkUrl d),
                     console = console w @ [ConsoleLog (str ''No data available for '' @ toLocaleDateString e d)]\<rparr>)"
  using assms by (simp add: downloadBhavCopy_open fetchDeals_def Let_def cancelIf_world consoleWrite_world)

lemma downloadBhavCopy_unreadable:
  assumes "\<not> closed w" "fetch e (bulkUrl d) = Inr response" "ok response" "bodyText response = Inl err"
  shows "downloadBhavCopy p a e d w =
           (Inr [], \<lparr>stream = stream w @ [Enqueue (Progress (fetchingMessage e d))],
                     closed = cancelledDuring e (bulkUrl d),
                     console = console w @ [ConsoleError (str ''Error fetching data for '' @ formatDateForNSE d @ str '':'') err]\<rparr>)"
  using assms by (simp add: downloadBhavCopy_open fetchDeals_def Let_def cancelIf_world consoleWrite_world)
lemma civil_examples:
  "civil 20759 = (2026, 11, 2)" "civil 20756 = (2026, 10, 30)" "civil 20755 = (2026, 10, 29)"
  "civil 20754 = (2026, 10, 28)" "civil 20753 = (2026, 10, 27)"
  by code_simp+

lemmas render_defs = formatDateForNSE_def getFullYear_def getMonth_def getDate_def civil_examples
  showInt_def showNat.simps padStart_def

lemma bulkUrl_examples:
  "bulkUrl (Some 20759) = str ''https://nsearchives.nseindia.com/content/equities/bulk_02112026.csv''"
  "bulkUrl (Some 20756) = str ''https://nsearchives.nseindia.com/content/equities/bulk_30102026.csv''"
  "bulkUrl (Some 20755) = str ''https://nsearchives.nseindia.com/content/equities/bulk_29102026.csv''"
  "bulkUrl (Some 20754) = str ''https://nsearchives.nseindia.com/content/equities/bulk_28102026.csv''"
  "bulkUrl (Some 20753) = str ''https://nsearchives.nseindia.com/content/equities/bulk_27102026.csv''"
  "bulkUrl None = str ''https://nsearchives.nseindia.com/content/equities/bulk_NaNNaNNaN.csv''"
  by (simp_all add: bulkUrl_def render_defs str_def)

lemma exampleEnv_fetch:
  "fetch exampleEnv (bulkUrl (Some 20759)) = Inr \<lparr>ok = False, bodyText = Inr []\<rparr>"
  "fetch exampleEnv (bulkUrl (Some 20756)) = Inr \<lparr>ok = True, bodyText = Inr exampleCsv\<rparr>"
  "fetch exampleEnv (bulkUrl (Some 20755)) = Inl (ErrorObject (str ''fetch failed''))"
  "fetch exampleEnv (bulkUrl (Some 20754)) = Inr \<lparr>ok = True, bodyText = Inl OtherValue\<rparr>"
  "fetch exampleEnv (bulkUrl (Some 20753)) = Inr \<lparr>ok = True, bodyText = Inr (str ''Date,Symbol'')\<rparr>"
  "fetch exampleEnv (bulkUrl None) = Inr \<lparr>ok = True, bodyText = Inr oneRowCsv\<rparr>"
  by (simp_all add: exampleEnv_def bulkUrl_examples str_def)

lemma exampleEnv_dates:
  "toISODate exampleEnv 20756 = str ''2026-10-30''"
  "toLocaleDateString exampleEnv (Some 20759) = str ''2/11/2026''"
  "toLocaleDateString exampleEnv (Some 20756) = str ''30/10/2026''"
  "toLocaleDateString exampleEnv (Some 20755) = str ''29/10/2026''"
  "toLocaleDateString exampleEnv (Some 20754) = str ''28/10/2026''"
  "toLocaleDateString exampleEnv (Some 20753) = str ''27/10/2026''"
  "toLocaleDateString exampleEnv None = str ''Invalid Date''"
  "cancelledDuring exampleEnv url = False"
  by (simp_all add: exampleEnv_def render_defs str_def)


lemma oneRowCsv_lines: "tl (nonBlankLines oneRowCsv) = [str '',TCS,LIC,BUY,5,2,x,-'']"
  by code_simp

lemma oneRow_accepted: "acceptedRow plainHost exactArith (parseCSVLine (str '',TCS,LIC,BUY,5,2,x,-''))"
  by code_simp
lemma parseDeals_invalid:
  "parseDeals p a (Inl err) csvText =
     (if \<exists>line \<in> set (tl (nonBlankLines csvText)). acceptedRow p a (parseCSVLine line)
      then Inl err else Inr [])"
proof (cases "length (nonBlankLines csvText) < 2")
  case True
  then have "tl (nonBlankLines csvText) = []"
    by (cases "nonBlankLines csvText") auto
  with True show ?thesis by (simp add: parseDeals_def)
next
  case False
  then show ?thesis by (simp add: parseDeals_def dealsLoop_invalid)
qed




lemma downloadBhavCopy_returns:
  assumes "\<not> closed w"
  shows "\<exists>deals logs. downloadBhavCopy p a e d w =
      (Inr deals, \<lparr>stream = stream w @ [Enqueue (Progress (fetchingMessage e d))],
                   closed = cancelledDuring e (bulkUrl d),
                   console = console w @ logs\<rparr>)"
proof (cases "fetch e (bulkUrl d)")
  case (Inl err)
  show ?thesis unfolding downloadBhavCopy_rejected[OF assms Inl] by simp
next
  case (Inr response)
  note f = this
  show ?thesis
  proof (cases "ok response")
    case False
    show ?thesis unfolding downloadBhavCopy_not_ok[OF assms f False] by simp
  next
    case True
    note k = this
    show ?thesis
    proof (cases "bodyText response")
      case (Inl err)
      show ?thesis unfolding downloadBhavCopy_unreadable[OF assms f k Inl] by simp
    next
      case (Inr csvText)
      note b = this
      show ?thesis
      proof (cases "parseDeals p a (toISOString e d) csvText")
        case (Inl err)
        show ?thesis unfolding downloadBhavCopy_parse_error[OF assms f k b Inl] by simp
      next
        case (Inr deals)
        have "console w = console w @ []" by simp
        then show ?thesis unfolding downloadBhavCopy_ok[OF assms f k b Inr] by blast
      qed
    qed
  qed
qed

text \<open>
  C7, as stated, fails: the progress event is enqueued before the \<open>try\<close> block, and on a
  stream that is already closed, which it is once the consumer has cancelled it, \<open>enqueue\<close>
  raises a \<open>TypeError\<close> that leaves the call.
\<close>

theorem downloadBhavCopy_throws_on_closed_stream:
  "closed closedWorld
   \<and> downloadBhavCopy plainHost exactArith exampleEnv (Some 20756) closedWorld
       = (Inl closedStreamError, closedWorld)"
  by (simp add: downloadBhavCopy_closed closedWorld_def)

text \<open>
  C7, amended. When the stream is writable at the start of the call, \<open>downloadBhavCopy\<close>
  returns a list of deals and raises nothing, for every date, every state of the network and
  every file body. It returns the empty list when the response status is not successful
  (logging that no data is available) and when the body has fewer than two non-blank lines; a
  rejected fetch, a body that cannot be read and an exception while the rows are parsed are
  caught inside the call, logged with \<open>console.error\<close>, and give the empty list as well. In
  every case the only call on the stream is the enqueueing of the progress event of the date.
\<close>

theorem downloadBhavCopy_never_throws:
  assumes "\<not> closed w"
  shows "(\<exists>deals logs. downloadBhavCopy p a e d w =
       (Inr deals, \<lparr>stream = stream w @ [Enqueue (Progress (fetchingMessage e d))],
                    closed = cancelledDuring e (bulkUrl d),
                    console = console w @ logs\<rparr>))
   \<and> (\<forall>response. fetch e (bulkUrl d) = Inr response \<and> \<not> ok response \<longrightarrow>
         fst (downloadBhavCopy p a e d w) = Inr []
         \<and> console (snd (downloadBhavCopy p a e d w)) =
             console w @ [ConsoleLog (str ''No data available for '' @ toLocaleDateString e d)])
   \<and> (\<forall>response csvText. fetch e (bulkUrl d) = Inr response \<and> ok response
          \<and> bodyText response = Inr csvText \<and> length (nonBlankLines csvText) < 2 \<longrightarrow>
         fst (downloadBhavCopy p a e d w) = Inr []
         \<and> console (snd (downloadBhavCopy p a e d w)) = console w)
   \<and> (\<forall>err. fetch e (bulkUrl d) = Inl err \<longrightarrow>
         fst (downloadBhavCopy p a e d w) = Inr []
         \<and> console (snd (downloadBhavCopy p a e d w)) =
             console w @ [ConsoleError (str ''Error fetching data for '' @ formatDateForNSE d @ str '':'') err])
   \<and> (\<forall>response err. fetch e (bulkUrl d) = Inr response \<and> ok response
          \<and> bodyText response = Inl err \<longrightarrow>
         fst (downloadBhavCopy p a e d w) = Inr []
         \<and> console (snd (downloadBhavCopy p a e d w)) =
             console w @ [ConsoleError (str ''Error fetching data for '' @ formatDateForNSE d @ str '':'') err])
   \<and> (\<forall>response csvText err. fetch e (bulkUrl d) = Inr response \<and> ok response
          \<and> bodyText response = Inr csvText \<and> parseDeals p a (toISOString e d) csvText = Inl err \<longrightarrow>
         fst (downloadBhavCopy p a e d w) = Inr []
         \<and> console (snd (downloadBhavCopy p a e d w)) =
             console w @ [ConsoleError (str ''Error fetching data for '' @ formatDateForNSE d @ str '':'') err])"
proof -
  have short: "\<forall>response csvText. fetch e (bulkUrl d) = Inr response \<and> ok response
          \<and> bodyText response = Inr csvText \<and> length (nonBlankLines csvText) < 2 \<longrightarrow>
         fst (downloadBhavCopy p a e d w) = Inr []
         \<and> console (snd (downloadBhavCopy p a e d w)) = console w"
  proof (intro allI impI)
    fix response csvText
    assume h: "fetch e (bulkUrl d) = Inr response \<and> ok response
          \<and> bodyText response = Inr csvText \<and> length (nonBlankLines csvText) < 2"
    then have "parseDeals p a (toISOString e d) csvText = Inr []" by (simp add: parseDeals_def)
    with h assms show "fst (downloadBhavCopy p a e d w) = Inr []
         \<and> console (snd (downloadBhavCopy p a e d w)) = console w"
      by (simp add: downloadBhavCopy_ok)
  qed
  have notok: "\<forall>response. fetch e (bulkUrl d) = Inr response \<and> \<not> ok response \<longrightarrow>
         fst (downloadBhavCopy p a e d w) = Inr []
         \<and> console (snd (downloadBhavCopy p a e d w)) =
             console w @ [ConsoleLog (str ''No data available for '' @ toLocaleDateString e d)]"
    using assms by (simp add: downloadBhavCopy_not_ok)
  have rej: "\<forall>err. fetch e (bulkUrl d) = Inl err \<longrightarrow>
         fst (downloadBhavCopy p a e d w) = Inr []
         \<and> console (snd (downloadBhavCopy p a e d w)) =
             console w @ [ConsoleError (str ''Error fetching data for '' @ formatDateForNSE d @ str '':'') err]"
    using assms by (simp add: downloadBhavCopy_rejected)
  have unr: "\<forall>response err. fetch e (bulkUrl d) = Inr response \<and> ok response
          \<and> bodyText response = Inl err \<longrightarrow>
         fst (downloadBhavCopy p a e d w) = Inr []
         \<and> console (snd (downloadBhavCopy p a e d w)) =
             console w @ [ConsoleError (str ''Error fetching data for '' @ formatDateForNSE d @ str '':'') err]"
    using assms by (simp add: downloadBhavCopy_unreadable)
  have prs: "\<forall>response csvText err. fetch e (bulkUrl d) = Inr response \<and> ok response
          \<and> bodyText response = Inr csvText \<and> parseDeals p a (toISOString e d) csvText = Inl err \<longrightarrow>
         fst (downloadBhavCopy p a e d w) = Inr []
         \<and> console (snd (downloadBhavCopy p a e d w)) =
             console w @ [ConsoleError (str ''Error fetching data for '' @ formatDateForNSE d @ str '':'') err]"
    using assms by (simp add: downloadBhavCopy_parse_error)
  from downloadBhavCopy_returns[OF assms, of p a e d] notok short rej unr prs
  show ?thesis by blast
qed
theorem downloadBhavCopy_never_throws_witness:
  "downloadBhavCopy plainHost exactArith exampleEnv (Some 20759) newStream =
     (Inr [], \<lparr>stream = [Enqueue (Progress (str ''Fetching data for 2/11/2026...''))], closed = False,
               console = [ConsoleLog (str ''No data available for 2/11/2026'')]\<rparr>)
   \<and> downloadBhavCopy plainHost exactArith exampleEnv (Some 20755) newStream =
     (Inr [], \<lparr>stream = [Enqueue (Progress (str ''Fetching data for 29/10/2026...''))], closed = False,
               console = [ConsoleError (str ''Error fetching data for 29102026:'')
                            (ErrorObject (str ''fetch failed''))]\<rparr>)
   \<and> downloadBhavCopy plainHost exactArith exampleEnv (Some 20754) newStream =
     (Inr [], \<lparr>stream = [Enqueue (Progress (str ''Fetching data for 28/10/2026...''))], closed = False,
               console = [ConsoleError (str ''Error fetching data for 28102026:'') OtherValue]\<rparr>)
   \<and> downloadBhavCopy plainHost exactArith exampleEnv (Some 20753) newStream =
     (Inr [], \<lparr>stream = [Enqueue (Progress (str ''Fetching data for 27/10/2026...''))], closed = False,
               console = []\<rparr>)
   \<and> downloadBhavCopy plainHost exactArith exampleEnv None newStream =
     (Inr [], \<lparr>stream = [Enqueue (Progress (str ''Fetching data for Invalid Date...''))], closed = False,
               console = [ConsoleError (str ''Error fetching data for NaNNaNNaN:'')
                            (ErrorObject (str ''Invalid time value''))]\<rparr>)"
proof -
  have fmt: "formatDateForNSE (Some 20755) = str ''29102026''" "formatDateForNSE (Some 20754) = str ''28102026''"
    "formatDateForNSE None = str ''NaNNaNNaN''"
    by (simp_all add: render_defs str_def)
  have short: "length (nonBlankLines (str ''Date,Symbol'')) < 2" by code_simp
  have pe: "parseDeals plainHost exactArith (toISOString exampleEnv None) oneRowCsv
          = Inl (ErrorObject (str ''Invalid time value''))"
    by (simp add: toISOString_def parseDeals_invalid oneRowCsv_lines oneRow_accepted)
  note o = newStream_open
  note t = downloadBhavCopy_never_throws[OF o, of plainHost exactArith exampleEnv]
  note w = newStream_def fetchingMessage_def exampleEnv_dates fmt str_def
  from t[of "Some 20759"] exampleEnv_fetch(1)
  have a: "downloadBhavCopy plainHost exactArith exampleEnv (Some 20759) newStream =
     (Inr [], \<lparr>stream = [Enqueue (Progress (str ''Fetching data for 2/11/2026...''))], closed = False,
               console = [ConsoleLog (str ''No data available for 2/11/2026'')]\<rparr>)"
    by (auto simp: w)
  from t[of "Some 20755"] exampleEnv_fetch(3)
  have b: "downloadBhavCopy plainHost exactArith exampleEnv (Some 20755) newStream =
     (Inr [], \<lparr>stream = [Enqueue (Progress (str ''Fetching data for 29/10/2026...''))], closed = False,
               console = [ConsoleError (str ''Error fetching data for 29102026:'')
                            (ErrorObject (str ''fetch failed''))]\<rparr>)"
    by (auto simp: w)
  from t[of "Some 20754"] exampleEnv_fetch(4)
  have c: "downloadBhavCopy plainHost exactArith exampleEnv (Some 20754) newStream =
     (Inr [], \<lparr>stream = [Enqueue (Progress (str ''Fetching data for 28/10/2026...''))], closed = False,
               console = [ConsoleError (str ''Error fetching data for 28102026:'') OtherValue]\<rparr>)"
    by (auto simp: w)
  from t[of "Some 20753"] exampleEnv_fetch(5) short
  have d: "downloadBhavCopy plainHost exactArith exampleEnv (Some 20753) newStream =
     (Inr [], \<lparr>stream = [Enqueue (Progress (str ''Fetching data for 27/10/2026...''))], closed = False,
               console = []\<rparr>)"
    by (auto simp: w)
  from t[of None] exampleEnv_fetch(6) pe
  have e: "downloadBhavCopy plainHost exactArith exampleEnv None newStream =
     (Inr [], \<lparr>stream = [Enqueue (Progress (str ''Fetching data for Invalid Date...''))], closed = False,
               console = [ConsoleError (str ''Error fetching data for NaNNaNNaN:'')
                            (ErrorObject (str ''Invalid time value''))]\<rparr>)"
    by (auto simp: w)
  from a b c d e show ?thesis by blast
qed

section \<open>Properties of the aggregator\<close>

lemma set_firstOccurrences: "set (firstOccurrences xs) = set xs"
  by (induction xs) auto

lemma distinct_firstOccurrences: "distinct (firstOccurrences xs)"
  by (induction xs) (auto simp: set_firstOccurrences)

lemma firstOccurrences_snoc:
  "firstOccurrences (xs @ [x]) =
     (if x \<in> set xs then firstOccurrences xs else firstOccurrences xs @ [x])"
  by (induction xs) auto

lemma totalsOf_snoc:
  "totalsOf a (pre @ [d]) s =
     (if symbol d = s
      then \<lparr>totalBuyQuantity = numAdd a (totalBuyQuantity (totalsOf a pre s)) (quantity d),
            totalBuyValue = numAdd a (totalBuyValue (totalsOf a pre s)) (dealValue d),
            transactions = transactions (totalsOf a pre s) + 1\<rparr>
      else totalsOf a pre s)"
  by (simp add: totalsOf_def sumOf_def Let_def)

lemma totalsOf_absent:
  "s \<notin> symbol ` set pre \<Longrightarrow>
     totalsOf a pre s = \<lparr>totalBuyQuantity = numZero a, totalBuyValue = numZero a, transactions = 0\<rparr>"
proof -
  assume "s \<notin> symbol ` set pre"
  then have "filter (\<lambda>deal. symbol deal = s) pre = []"
    by (auto simp: filter_empty_conv)
  then show ?thesis by (simp add: totalsOf_def sumOf_def Let_def)
qed

lemma map_of_table:
  "map_of (map (\<lambda>s. (s, f s)) keys) k = (if k \<in> set keys then Some (f k) else None)"
  by (induction keys) auto

lemma update_table_present:
  "k \<in> set keys \<Longrightarrow> distinct keys \<Longrightarrow>
     AList.update k v (map (\<lambda>s. (s, f s)) keys) = map (\<lambda>s. (s, (f(k := v)) s)) keys"
  by (induction keys) auto

lemma update_table_absent:
  "k \<notin> set keys \<Longrightarrow>
     AList.update k v (map (\<lambda>s. (s, f s)) keys) = map (\<lambda>s. (s, (f(k := v)) s)) (keys @ [k])"
  by (induction keys) auto

lemma table_snoc:
  "table a (pre @ [d]) =
     AList.update (symbol d)
       \<lparr>totalBuyQuantity = numAdd a (totalBuyQuantity (totalsOf a pre (symbol d))) (quantity d),
        totalBuyValue = numAdd a (totalBuyValue (totalsOf a pre (symbol d))) (dealValue d),
        transactions = transactions (totalsOf a pre (symbol d)) + 1\<rparr>
       (table a pre)"
proof -
  let ?v = "\<lparr>totalBuyQuantity = numAdd a (totalBuyQuantity (totalsOf a pre (symbol d))) (quantity d),
        totalBuyValue = numAdd a (totalBuyValue (totalsOf a pre (symbol d))) (dealValue d),
        transactions = transactions (totalsOf a pre (symbol d)) + 1\<rparr>"
  let ?keys = "firstOccurrences (map symbol pre)"
  have f: "(\<lambda>s. totalsOf a (pre @ [d]) s) = (\<lambda>s. totalsOf a pre s)(symbol d := ?v)"
    by (rule ext) (simp add: totalsOf_snoc)
  show ?thesis
  proof (cases "symbol d \<in> set (map symbol pre)")
    case True
    then have k: "symbol d \<in> set ?keys" by (simp add: set_firstOccurrences)
    have "table a (pre @ [d]) = map (\<lambda>s. (s, totalsOf a (pre @ [d]) s)) ?keys"
      using True by (simp add: table_def firstOccurrences_snoc)
    also have "\<dots> = map (\<lambda>s. (s, ((\<lambda>s. totalsOf a pre s)(symbol d := ?v)) s)) ?keys"
      by (simp only: f)
    also have "\<dots> = AList.update (symbol d) ?v (map (\<lambda>s. (s, totalsOf a pre s)) ?keys)"
      by (rule update_table_present[OF k distinct_firstOccurrences, symmetric])
    finally show ?thesis by (simp add: table_def)
  next
    case False
    then have k: "symbol d \<notin> set ?keys" by (simp add: set_firstOccurrences)
    have "table a (pre @ [d]) = map (\<lambda>s. (s, totalsOf a (pre @ [d]) s)) (?keys @ [symbol d])"
      using False by (simp add: table_def firstOccurrences_snoc)
    also have "\<dots> = map (\<lambda>s. (s, ((\<lambda>s. totalsOf a pre s)(symbol d := ?v)) s)) (?keys @ [symbol d])"
      by (simp only: f)
    also have "\<dots> = AList.update (symbol d) ?v (map (\<lambda>s. (s, totalsOf a pre s)) ?keys)"
      by (rule update_table_absent[OF k, symmetric])
    finally show ?thesis by (simp add: table_def)
  qed
qed

lemma map_of_table_totals:
  "(case map_of (table a pre) s of
      Some t \<Rightarrow> t
    | None \<Rightarrow> \<lparr>totalBuyQuantity = numZero a, totalBuyValue = numZero a, transactions = 0\<rparr>)
     = totalsOf a pre s"
proof (cases "s \<in> symbol ` set pre")
  case True
  then show ?thesis by (simp add: table_def map_of_table set_firstOccurrences)
next
  case False
  then show ?thesis by (simp add: table_def map_of_table set_firstOccurrences totalsOf_absent)
qed

lemma accumulate_table: "accumulate a ds (table a pre) = table a (pre @ ds)"
proof (induction ds arbitrary: pre)
  case Nil
  show ?case by simp
next
  case (Cons d ds)
  have "accumulate a (d # ds) (table a pre) = accumulate a ds (table a (pre @ [d]))"
    by (simp add: Let_def map_of_table_totals table_snoc)
  also have "\<dots> = table a ((pre @ [d]) @ ds)" by (rule Cons.IH)
  finally show ?case by simp
qed

lemma toAccumulation_totalsOf: "toAccumulation a (s, totalsOf a deals s) = accumulationOf a deals s"
  by (simp add: toAccumulation_def totalsOf_def accumulationOf_def Let_def)

lemma accumulate_groups: "map (toAccumulation a) (accumulate a deals []) = groupsOf a deals"
proof -
  have "table a [] = []" by (simp add: table_def)
  with accumulate_table[of a deals "[]"] have "accumulate a deals [] = table a deals" by simp
  then show ?thesis by (simp add: table_def groupsOf_def toAccumulation_totalsOf)
qed

lemma set_insertSorted: "set (insertSorted a cmp x ys) = insert x (set ys)"
  by (induction ys) auto

lemma length_insertSorted: "length (insertSorted a cmp x ys) = Suc (length ys)"
  by (induction ys) auto

lemma set_sortBy: "set (sortBy a cmp xs) = set xs"
  unfolding sortBy_def by (induction xs) (auto simp: set_insertSorted)

lemma length_sortBy: "length (sortBy a cmp xs) = length xs"
  unfolding sortBy_def by (induction xs) (auto simp: length_insertSorted)

lemma map_insertSorted_distinct:
  "distinct (map f (x # ys)) \<Longrightarrow> distinct (map f (insertSorted a cmp x ys))"
proof (induction ys)
  case Nil
  then show ?case by simp
next
  case (Cons y ys)
  then have "distinct (map f (x # ys))" by auto
  with Cons.IH have ih: "distinct (map f (insertSorted a cmp x ys))" by blast
  have "f y \<notin> f ` set (insertSorted a cmp x ys)"
    using Cons.prems by (auto simp: set_insertSorted)
  with ih Cons.prems show ?case by auto
qed

lemma distinct_map_sortBy: "distinct (map f xs) \<Longrightarrow> distinct (map f (sortBy a cmp xs))"
proof (induction xs)
  case Nil
  show ?case by (simp add: sortBy_def)
next
  case (Cons x xs)
  then have "distinct (map f (sortBy a cmp xs))" by simp
  moreover have "f x \<notin> f ` set (sortBy a cmp xs)" using Cons.prems by (auto simp: set_sortBy)
  ultimately have "distinct (map f (x # sortBy a cmp xs))" by simp
  then have "distinct (map f (insertSorted a cmp x (sortBy a cmp xs)))"
    by (rule map_insertSorted_distinct)
  then show ?case by (simp add: sortBy_def)
qed

lemma analyzeAccumulation_take:
  "analyzeAccumulation p a allDeals =
     take 10 (sortBy a (compareByValue a) (groupsOf a (institutionalDeals p allDeals)))"
  by (simp add: analyzeAccumulation_def Let_def accumulate_groups)

lemma stock_groupsOf: "map stock (groupsOf a deals) = firstOccurrences (map symbol deals)"
  by (simp add: groupsOf_def accumulationOf_def Let_def comp_def)

lemma distinct_stock_groupsOf: "distinct (map stock (groupsOf a deals))"
  by (simp add: stock_groupsOf distinct_firstOccurrences)

lemma analyzeAccumulation_member:
  assumes "r \<in> set (analyzeAccumulation p a allDeals)"
  shows "\<exists>s. s \<in> symbol ` set (institutionalDeals p allDeals)
            \<and> r = accumulationOf a (institutionalDeals p allDeals) s"
proof -
  from assms have "r \<in> set (sortBy a (compareByValue a) (groupsOf a (institutionalDeals p allDeals)))"
    unfolding analyzeAccumulation_take by (rule in_set_takeD)
  then have "r \<in> set (groupsOf a (institutionalDeals p allDeals))" by (simp add: set_sortBy)
  then show ?thesis by (auto simp: groupsOf_def set_firstOccurrences)
qed








lemma institutional_LIC: "isInstitutional p (str ''LIC'')"
proof -
  have u: "toUpperCase p (str ''LIC'') = str ''LIC''"
    by (simp add: toUpperCase_def str_def asciiUpper_def)
  have "list_ex (\<lambda>keyword. includesStr (str ''LIC'') keyword) INSTITUTIONAL_KEYWORDS" by code_simp
  then show ?thesis by (simp add: isInstitutional_def Let_def u)
qed





lemma analyzeAccumulation_exampleDeals:
  "analyzeAccumulation plainHost exactArith exampleDeals =
     [\<lparr>totalBuyQuantity = Some 1005, totalBuyValue = Some 10510, transactions = 2, stock = str ''TCS'',
        avgPrice = Some (2102 / 201)\<rparr>,
      \<lparr>totalBuyQuantity = Some 50, totalBuyValue = Some 1000, transactions = 1, stock = str ''INFY'',
        avgPrice = Some 20\<rparr>]"
  by code_simp


lemma foldl_positive:
  assumes "positiveSums a" and "\<forall>x\<in>set xs. isPositive a x" and "isPositive a u"
  shows "isPositive a (foldl (numAdd a) u xs)"
  using assms(2,3)
proof (induction xs arbitrary: u)
  case Nil
  then show ?case by simp
next
  case (Cons x xs)
  from assms(1) Cons.prems have "isPositive a (numAdd a u x)" by (simp add: positiveSums_def)
  with Cons show ?case by simp
qed

lemma sumOf_positive:
  assumes "positiveSums a" and "xs \<noteq> []" and "\<forall>x\<in>set xs. isPositive a x"
  shows "isPositive a (sumOf a xs)"
proof (cases xs)
  case Nil
  with assms(2) show ?thesis by simp
next
  case (Cons x rest)
  with assms(1,3) have "isPositive a (numAdd a (numZero a) x)" by (simp add: positiveSums_def)
  with foldl_positive[OF assms(1), of rest] assms(3) Cons show ?thesis by (simp add: sumOf_def)
qed

text \<open>
  C9. On a host where \<open>0\<close> is not greater than zero and a sum of numbers greater than zero is
  greater than zero, which holds for doubles: when every deal of the input has a quantity
  greater than zero, every entry that the aggregator returns stands for at least one
  institutional \<open>BUY\<close> deal of its symbol and has a \<open>totalBuyQuantity\<close> greater than zero, so
  the division that computes \<open>avgPrice\<close> as \<open>totalBuyValue / totalBuyQuantity\<close> has a divisor
  other than zero.
\<close>

theorem analyzeAccumulation_quantity_positive:
  assumes "positiveSums a" and "\<forall>deal\<in>set allDeals. isPositive a (quantity deal)"
  shows "\<forall>r\<in>set (analyzeAccumulation p a allDeals).
           isPositive a (totalBuyQuantity r)
           \<and> totalBuyQuantity r \<noteq> numZero a
           \<and> avgPrice r = numDiv a (totalBuyValue r) (totalBuyQuantity r)
           \<and> (\<exists>deal\<in>set (institutionalDeals p allDeals). symbol deal = stock r)"
proof
  fix r assume "r \<in> set (analyzeAccumulation p a allDeals)"
  then obtain s where s: "s \<in> symbol ` set (institutionalDeals p allDeals)"
    and r: "r = accumulationOf a (institutionalDeals p allDeals) s"
    using analyzeAccumulation_member by blast
  let ?own = "filter (\<lambda>deal. symbol deal = s) (institutionalDeals p allDeals)"
  from s have ne: "map quantity ?own \<noteq> []" by (auto simp: filter_empty_conv)
  have "set ?own \<subseteq> set allDeals" by (auto simp: institutionalDeals_def)
  with assms(2) have pos: "\<forall>x\<in>set (map quantity ?own). isPositive a x" by auto
  from sumOf_positive[OF assms(1) ne pos] have q: "isPositive a (sumOf a (map quantity ?own))" .
  from r have tq: "totalBuyQuantity r = sumOf a (map quantity ?own)"
    and av: "avgPrice r = numDiv a (totalBuyValue r) (totalBuyQuantity r)"
    and st: "stock r = s"
    by (simp_all add: accumulationOf_def Let_def)
  from q tq have p: "isPositive a (totalBuyQuantity r)" by simp
  with assms(1) have nz: "totalBuyQuantity r \<noteq> numZero a" by (auto simp: positiveSums_def)
  from s st have "\<exists>deal\<in>set (institutionalDeals p allDeals). symbol deal = stock r" by auto
  with p nz av show "isPositive a (totalBuyQuantity r)
           \<and> totalBuyQuantity r \<noteq> numZero a
           \<and> avgPrice r = numDiv a (totalBuyValue r) (totalBuyQuantity r)
           \<and> (\<exists>deal\<in>set (institutionalDeals p allDeals). symbol deal = stock r)"
    by blast
qed

lemma positiveSums_exact: "positiveSums exactArith"
  unfolding positiveSums_def
proof (intro conjI allI impI)
  show "\<not> isPositive exactArith (numZero exactArith)" by (simp add: exactArith_def)
next
  fix v assume "isPositive exactArith v"
  then show "isPositive exactArith (numAdd exactArith (numZero exactArith) v)"
    by (cases v) (simp_all add: exactArith_def lift2_def)
next
  fix u v assume "isPositive exactArith u \<and> isPositive exactArith v"
  then show "isPositive exactArith (numAdd exactArith u v)"
    by (cases u; cases v) (simp_all add: exactArith_def lift2_def)
qed

theorem analyzeAccumulation_quantity_positive_witness:
  "isPositive exactArith (totalBuyQuantity (hd (analyzeAccumulation plainHost exactArith exampleDeals)))
   \<and> avgPrice (hd (analyzeAccumulation plainHost exactArith exampleDeals)) = Some (2102 / 201)
   \<and> totalBuyQuantity (hd (analyzeAccumulation plainHost exactArith exampleDeals)) = Some 1005"
proof -
  have h: "\<forall>deal\<in>set exampleDeals. isPositive exactArith (quantity deal)"
    by (simp add: exampleDeals_def exactArith_def)
  have m: "hd (analyzeAccumulation plainHost exactArith exampleDeals)
             \<in> set (analyzeAccumulation plainHost exactArith exampleDeals)"
    by (simp add: analyzeAccumulation_exampleDeals)
  from analyzeAccumulation_quantity_positive[OF positiveSums_exact h, of plainHost] m
  have "isPositive exactArith (totalBuyQuantity (hd (analyzeAccumulation plainHost exactArith exampleDeals)))"
    by blast
  then show ?thesis by (simp add: analyzeAccumulation_exampleDeals)
qed

text \<open>
  C10. The symbols of the list returned by the aggregator are pairwise distinct: no symbol
  has two entries.
\<close>

theorem analyzeAccumulation_distinct_symbols:
  "distinct (map stock (analyzeAccumulation p a allDeals))"
proof -
  have "distinct (map stock (sortBy a (compareByValue a) (groupsOf a (institutionalDeals p allDeals))))"
    by (rule distinct_map_sortBy) (rule distinct_stock_groupsOf)
  then have "distinct (take 10 (map stock (sortBy a (compareByValue a) (groupsOf a (institutionalDeals p allDeals)))))"
    by (rule distinct_take)
  then show ?thesis by (simp add: analyzeAccumulation_take take_map)
qed

end
